theory Spec2Isabelle
  imports Main "HOL-Library.Sublist" "HOL-Library.Multiset" "HOL-Library.List_Lexorder" "HOL-Library.Char_ord"
begin

section \<open>Data model of the CodeFlow page component\<close>

text \<open>
  Strings are byte sequences (the UTF-8 encoding of the JavaScript string), so string
  equality and concatenation are those of the source. The record fields carry a prefix
  where two records of the source use the same field name (\<open>id\<close>, \<open>name\<close>, \<open>type\<close>).
  Of \<open>Project\<close>, the fields \<open>scene\<close> and \<open>vcs\<close> are left out, and of the component state the
  presentation fields (device, cursor, find and replace, terminal position, panels): no
  operation modelled below reads or writes them.
\<close>

datatype Kind = File | Folder

record FileItem =
  f_id :: string
  f_name :: string
  kind :: Kind
  content :: string
  parentId :: "string option"

text \<open>
  The values a field of a document can hold. \<open>JNum i\<close> is the number \<open>i\<close> for an
  integer \<open>i\<close> of magnitude below \<open>2\<^sup>5\<^sup>3\<close>, the integers that a JavaScript number
  holds exactly; other numbers, and objects and arrays as field values, are not
  modelled.
\<close>

datatype jsval = JUndefined | JNull | JBool bool | JNum int | JStr string

type_synonym CollectionDoc = "string \<rightharpoonup> jsval"

datatype ProjectType = TwoD | ThreeD

record Project =
  p_id :: string
  p_name :: string
  p_type :: ProjectType
  files :: "FileItem list"
  connected :: "string list"
  collaborators :: "string list"
  collections :: "string \<rightharpoonup> CollectionDoc list"
  apiKeys :: "(string \<times> string) list"

datatype LogLevel = Info | Success | Error

record TerminalEntry =
  e_id :: string
  level :: LogLevel
  message :: string

datatype Auth = Guest | User

record State =
  auth :: Auth
  projects :: "Project list"
  activeProjectId :: string
  activeFileId :: string
  openTabs :: "string list"
  search :: string
  selectedIds :: "string list"
  moveTarget :: "string option"
  logs :: "TerminalEntry list"
  termInput :: string

text \<open>
  What a handler can throw: \<open>TypeError\<close> for a property read on \<open>undefined\<close>, and
  \<open>RangeError\<close> (maximum call stack size exceeded) for a recursion that does not return,
  which the model reports when the recursion fuel is used up.
\<close>

datatype error = TypeError | RangeError

section \<open>The active project\<close>

text \<open>
  \<open>projects.find((p) => p.id === activeProjectId) ?? projects[0]\<close>;
  \<open>None\<close> is \<open>undefined\<close>, the value on an empty list.
\<close>

definition project :: "State \<Rightarrow> Project option" where
  "project s =
     (case find (\<lambda>p. p_id p = activeProjectId s) (projects s) of
        Some p \<Rightarrow> Some p
      | None \<Rightarrow> (case projects s of [] \<Rightarrow> None | p # _ \<Rightarrow> Some p))"

text \<open>\<open>project?.files.find((f) => f.id === activeFileId && f.kind === "file") ?? null\<close>\<close>

definition activeFile :: "State \<Rightarrow> FileItem option" where
  "activeFile s =
     (case project s of
        None \<Rightarrow> None
      | Some pr \<Rightarrow> find (\<lambda>f. f_id f = activeFileId s \<and> kind f = File) (files pr))"

text \<open>
  \<open>setProjects((prev) => prev.map((p) => (p.id === project.id ? cb(p) : p)))\<close>.
  With no project the list is empty and the callback of \<open>map\<close> never runs.
\<close>

definition patchProject :: "(Project \<Rightarrow> Project) \<Rightarrow> State \<Rightarrow> State" where
  "patchProject cb s =
     (case project s of
        None \<Rightarrow> s
      | Some pr \<Rightarrow> s\<lparr>projects := map (\<lambda>p. if p_id p = p_id pr then cb p else p) (projects s)\<rparr>)"

section \<open>The file hierarchy\<close>

text \<open>
  \<open>xs.flatMap(f)\<close> where \<open>f\<close> may fail to return: the result is there only when every
  call returned.
\<close>

fun flatMapO :: "('a \<Rightarrow> 'b list option) \<Rightarrow> 'a list \<Rightarrow> 'b list option" where
  "flatMapO f [] = Some []"
| "flatMapO f (x # xs) =
     (case f x of
        None \<Rightarrow> None
      | Some ys \<Rightarrow> (case flatMapO f xs of None \<Rightarrow> None | Some zs \<Rightarrow> Some (ys @ zs)))"

text \<open>
  \<open>descendants(files, id)\<close>: the ids of the children of \<open>id\<close>, each followed by its own
  descendants. The first argument bounds the depth of the recursion; \<open>None\<close> says that
  the bound was reached.
\<close>

fun descendants :: "nat \<Rightarrow> FileItem list \<Rightarrow> string \<Rightarrow> string list option" where
  "descendants 0 fs i = None"
| "descendants (Suc n) fs i =
     flatMapO (\<lambda>k. case descendants n fs k of None \<Rightarrow> None | Some ds \<Rightarrow> Some (k # ds))
       (map f_id (filter (\<lambda>f. parentId f = Some i) fs))"

text \<open>
  \<open>deleteFile(id)\<close> of the context menu. \<open>toDelete\<close> is computed from the files of the
  active project; the open tabs and the active file id are filtered with the same set.
\<close>

definition deleteFile :: "nat \<Rightarrow> string \<Rightarrow> State \<Rightarrow> error + State" where
  "deleteFile n i s =
     (case project s of
        None \<Rightarrow> Inl TypeError
      | Some pr \<Rightarrow>
          (case descendants n (files pr) i of
             None \<Rightarrow> Inl RangeError
           | Some ds \<Rightarrow>
               (let toDelete = set (i # ds) in
                Inr ((patchProject (\<lambda>p. p\<lparr>files := filter (\<lambda>f. f_id f \<notin> toDelete) (files p)\<rparr>) s)
                      \<lparr>openTabs := filter (\<lambda>x. x \<notin> toDelete) (openTabs s),
                       activeFileId := (if activeFileId s \<in> toDelete then '''' else activeFileId s)\<rparr>))))"

text \<open>
  \<open>moveFile(id)\<close> of the context menu: the destination is the first folder whose id is
  not \<open>id\<close>, or the root when there is none.
\<close>

definition moveFile :: "string \<Rightarrow> State \<Rightarrow> error + State" where
  "moveFile i s =
     (case project s of
        None \<Rightarrow> Inl TypeError
      | Some pr \<Rightarrow>
          (let target = map_option f_id (find (\<lambda>f. kind f = Folder \<and> f_id f \<noteq> i) (files pr)) in
           Inr (patchProject (\<lambda>p. p\<lparr>files := map (\<lambda>f. if f_id f = i then f\<lparr>parentId := target\<rparr> else f) (files p)\<rparr>) s)))"

text \<open>
  The parent relation of a hierarchy, as pairs (child id, parent id), and the forest
  property: no node is reached from itself along parent references.
\<close>

definition child_rel :: "FileItem list \<Rightarrow> (string \<times> string) set" where
  "child_rel fs = set (List.map_filter (\<lambda>f. map_option (Pair (f_id f)) (parentId f)) fs)"

definition forest :: "FileItem list \<Rightarrow> bool" where
  "forest fs = acyclic (child_rel fs)"

text \<open>The node \<open>i\<close> together with everything below it.\<close>

definition closure :: "FileItem list \<Rightarrow> string \<Rightarrow> string set" where
  "closure fs i = insert i {x. (x, i) \<in> (child_rel fs)\<^sup>+}"

text \<open>
  The explorer buttons \<open>New file\<close> and \<open>New folder\<close>: a node with a generated id
  \<open>u\<close> and a generated name is appended at the root.
\<close>

definition newFile :: "string \<Rightarrow> string \<Rightarrow> State \<Rightarrow> State" where
  "newFile u u' s =
     patchProject (\<lambda>p. p\<lparr>files := files p @
        [\<lparr>f_id = u, f_name = ''new-'' @ u' @ ''.js'', kind = File, content = '''', parentId = None\<rparr>]\<rparr>) s"

definition newFolder :: "string \<Rightarrow> string \<Rightarrow> State \<Rightarrow> State" where
  "newFolder u u' s =
     patchProject (\<lambda>p. p\<lparr>files := files p @
        [\<lparr>f_id = u, f_name = ''folder-'' @ u', kind = Folder, content = '''', parentId = None\<rparr>]\<rparr>) s"

text \<open>
  \<open>renameFile(id)\<close>; \<open>nxt\<close> is what the prompt returned (\<open>None\<close> when it was
  cancelled).
\<close>

definition renameFile :: "string \<Rightarrow> string option \<Rightarrow> State \<Rightarrow> error + State" where
  "renameFile i nxt s =
     (case project s of
        None \<Rightarrow> Inl TypeError
      | Some pr \<Rightarrow>
          (case find (\<lambda>f. f_id f = i) (files pr) of
             None \<Rightarrow> Inr s
           | Some target \<Rightarrow>
               (case nxt of
                  None \<Rightarrow> Inr s
                | Some new \<Rightarrow>
                    if new = '''' then Inr s
                    else Inr (patchProject (\<lambda>p. p\<lparr>files := map (\<lambda>f. if f_id f = i then f\<lparr>f_name := new\<rparr> else f) (files p)\<rparr>) s))))"

text \<open>The button \<open>Drop into folder\<close>, shown while \<open>moveTarget\<close> is set.\<close>

definition dropIntoFolder :: "State \<Rightarrow> State" where
  "dropIntoFolder s =
     (case moveTarget s of
        None \<Rightarrow> s
      | Some t \<Rightarrow>
          (patchProject (\<lambda>p. p\<lparr>files := map (\<lambda>f. if f_id f \<in> set (selectedIds s) then f\<lparr>parentId := Some t\<rparr> else f) (files p)\<rparr>) s)
            \<lparr>selectedIds := [], moveTarget := None\<rparr>)"

section \<open>The explorer listing\<close>











section \<open>The document collection SDK\<close>

text \<open>Decimal digits of a number, for \<open>String(n)\<close> and template strings.\<close>

fun digits :: "nat \<Rightarrow> string" where
  "digits n = (if n < 10 then [''0123456789'' ! n] else digits (n div 10) @ [''0123456789'' ! (n mod 10)])"

declare digits.simps [simp del]

text \<open>
  \<open>String(v)\<close>. The numbers of the model are printed as decimal numerals; the exponent
  notation starts at \<open>10\<^sup>2\<^sup>1\<close>, above them.
\<close>

fun ToString :: "jsval \<Rightarrow> string" where
  "ToString JUndefined = ''undefined''"
| "ToString JNull = ''null''"
| "ToString (JBool b) = (if b then ''true'' else ''false'')"
| "ToString (JNum i) = (if i < 0 then ''-'' @ digits (nat (- i)) else digits (nat i))"
| "ToString (JStr s) = s"

text \<open>\<open>v ?? d\<close> on a property read: an absent property reads as \<open>undefined\<close>.\<close>

fun nullish_or :: "jsval option \<Rightarrow> jsval \<Rightarrow> jsval" where
  "nullish_or None d = d"
| "nullish_or (Some JUndefined) d = d"
| "nullish_or (Some JNull) d = d"
| "nullish_or (Some v) d = v"

text \<open>
  The names of the properties that every object inherits from \<open>Object.prototype\<close>. The
  collection map of a project is a plain object (an object literal, an object spread or
  the result of \<open>JSON.parse\<close>), so reading one of these names on it yields the inherited
  function or object, unless the map has a collection of that name itself.
\<close>

definition objectPrototypeNames :: "string list" where
  "objectPrototypeNames =
     [''constructor'', ''__defineGetter__'', ''__defineSetter__'', ''hasOwnProperty'',
      ''__lookupGetter__'', ''__lookupSetter__'', ''isPrototypeOf'', ''propertyIsEnumerable'',
      ''toString'', ''valueOf'', ''__proto__'', ''toLocaleString'']"

text \<open>
  What \<open>p.collections[name]\<close> evaluates to: \<open>undefined\<close>, the documents of a collection
  of the map, or an inherited value, which is neither nullish nor an array.
\<close>

datatype property = Undefined | Docs "CollectionDoc list" | Inherited

definition readCollection :: "Project \<Rightarrow> string \<Rightarrow> property" where
  "readCollection p name =
     (case collections p name of
        Some ds \<Rightarrow> Docs ds
      | None \<Rightarrow> if name \<in> set objectPrototypeNames then Inherited else Undefined)"

text \<open>\<open>v ?? []\<close>\<close>

fun orEmpty :: "property \<Rightarrow> property" where
  "orEmpty Undefined = Docs []"
| "orEmpty (Docs ds) = Docs ds"
| "orEmpty Inherited = Inherited"

text \<open>
  The elements that \<open>[...v]\<close>, \<open>v.map\<close> and \<open>v.filter\<close> work on. An inherited value is
  not iterable and has no method \<open>map\<close> or \<open>filter\<close>: each of the three throws a
  \<open>TypeError\<close> on it, as on \<open>undefined\<close>.
\<close>

fun elements :: "property \<Rightarrow> error + CollectionDoc list" where
  "elements (Docs ds) = Inr ds"
| "elements Inherited = Inl TypeError"
| "elements Undefined = Inl TypeError"

text \<open>\<open>xs.map(f)\<close> where \<open>f\<close> may throw: the first error ends the call.\<close>

fun mapE :: "('a \<Rightarrow> error + 'b) \<Rightarrow> 'a list \<Rightarrow> error + 'b list" where
  "mapE f [] = Inr []"
| "mapE f (x # xs) =
     (case f x of
        Inl e \<Rightarrow> Inl e
      | Inr y \<Rightarrow> (case mapE f xs of Inl e \<Rightarrow> Inl e | Inr ys \<Rightarrow> Inr (y # ys)))"

text \<open>
  \<open>patchProject\<close> with a callback that may throw. The callback runs inside the updater
  given to \<open>setProjects\<close>; when it throws, no state is written.
\<close>

definition patchProjectE :: "(Project \<Rightarrow> error + Project) \<Rightarrow> State \<Rightarrow> error + State" where
  "patchProjectE cb s =
     (case project s of
        None \<Rightarrow> Inr s
      | Some pr \<Rightarrow>
          (case mapE (\<lambda>p. if p_id p = p_id pr then cb p else Inr p) (projects s) of
             Inl e \<Rightarrow> Inl e
           | Inr ps \<Rightarrow> Inr (s\<lparr>projects := ps\<rparr>)))"

text \<open>\<open>window.db.collection(name)\<close>: \<open>getDocs()\<close> is \<open>project.collections[name] ?? []\<close>.\<close>

definition getDocs :: "string \<Rightarrow> State \<Rightarrow> error + property" where
  "getDocs name s =
     (case project s of
        None \<Rightarrow> Inl TypeError
      | Some pr \<Rightarrow> Inr (orEmpty (readCollection pr name)))"

text \<open>
  \<open>{ id: uid(), name: String(data.name ?? "doc"), ...data }\<close>, with \<open>u\<close> the value
  that \<open>uid()\<close> returned: the properties of \<open>data\<close> are written last.
\<close>

definition newDoc :: "string \<Rightarrow> (string \<rightharpoonup> jsval) \<Rightarrow> CollectionDoc" where
  "newDoc u data =
     [''id'' \<mapsto> JStr u, ''name'' \<mapsto> JStr (ToString (nullish_or (data ''name'') (JStr ''doc'')))] ++ data"

text \<open>
  \<open>addDoc(data)\<close>. The first component is the value of the call: \<open>patchProject\<close> has a
  block body, so the call evaluates to \<open>undefined\<close>, here \<open>None\<close>. The second
  component is the state that the update leaves, or the error that its callback throws.
  \<open>u\<close> is the value of the call of \<open>uid()\<close> for the active workspace, the first one
  with its id. Should further workspaces have that id, the source calls \<open>uid()\<close> again
  for each of them, where the model takes \<open>u\<close> again.
\<close>

definition addDoc :: "string \<Rightarrow> (string \<rightharpoonup> jsval) \<Rightarrow> string \<Rightarrow> State
    \<Rightarrow> CollectionDoc option \<times> (error + State)" where
  "addDoc name data u s =
     (None,
      patchProjectE (\<lambda>p. case elements (orEmpty (readCollection p name)) of
           Inl e \<Rightarrow> Inl e
         | Inr ds \<Rightarrow> Inr (p\<lparr>collections := (collections p)(name \<mapsto> ds @ [newDoc u data])\<rparr>)) s)"

definition updateDoc :: "string \<Rightarrow> string \<Rightarrow> (string \<rightharpoonup> jsval) \<Rightarrow> State \<Rightarrow> error + State" where
  "updateDoc name i data s =
     patchProjectE (\<lambda>p. case elements (orEmpty (readCollection p name)) of
          Inl e \<Rightarrow> Inl e
        | Inr ds \<Rightarrow> Inr (p\<lparr>collections := (collections p)
            (name \<mapsto> map (\<lambda>d. if d ''id'' = Some (JStr i) then d ++ data else d) ds)\<rparr>)) s"

definition deleteDoc :: "string \<Rightarrow> string \<Rightarrow> State \<Rightarrow> error + State" where
  "deleteDoc name i s =
     patchProjectE (\<lambda>p. case elements (orEmpty (readCollection p name)) of
          Inl e \<Rightarrow> Inl e
        | Inr ds \<Rightarrow> Inr (p\<lparr>collections := (collections p)
            (name \<mapsto> filter (\<lambda>d. d ''id'' \<noteq> Some (JStr i)) ds)\<rparr>)) s"

section \<open>The terminal\<close>

text \<open>
  The code points that \<open>String.prototype.trim\<close> removes (WhiteSpace and LineTerminator
  of ECMAScript), each in its UTF-8 encoding.
\<close>

definition whitespace :: "string list" where
  "whitespace =
     [[CHR 0x09], [CHR 0x0A], [CHR 0x0B], [CHR 0x0C], [CHR 0x0D], [CHR 0x20],
      [CHR 0xC2, CHR 0xA0], [CHR 0xE1, CHR 0x9A, CHR 0x80],
      [CHR 0xE2, CHR 0x80, CHR 0x80], [CHR 0xE2, CHR 0x80, CHR 0x81], [CHR 0xE2, CHR 0x80, CHR 0x82],
      [CHR 0xE2, CHR 0x80, CHR 0x83], [CHR 0xE2, CHR 0x80, CHR 0x84], [CHR 0xE2, CHR 0x80, CHR 0x85],
      [CHR 0xE2, CHR 0x80, CHR 0x86], [CHR 0xE2, CHR 0x80, CHR 0x87], [CHR 0xE2, CHR 0x80, CHR 0x88],
      [CHR 0xE2, CHR 0x80, CHR 0x89], [CHR 0xE2, CHR 0x80, CHR 0x8A],
      [CHR 0xE2, CHR 0x80, CHR 0xA8], [CHR 0xE2, CHR 0x80, CHR 0xA9], [CHR 0xE2, CHR 0x80, CHR 0xAF],
      [CHR 0xE2, CHR 0x81, CHR 0x9F], [CHR 0xE3, CHR 0x80, CHR 0x80], [CHR 0xEF, CHR 0xBB, CHR 0xBF]]"

text \<open>Remove from the front of \<open>s\<close> every leading occurrence of a member of \<open>ws\<close>.\<close>

function strip :: "string list \<Rightarrow> string \<Rightarrow> string" where
  "strip ws s =
     (case find (\<lambda>w. w \<noteq> [] \<and> prefix w s) ws of
        None \<Rightarrow> s
      | Some w \<Rightarrow> strip ws (drop (length w) s))"
  by pat_completeness auto
termination
  by (relation "measure (\<lambda>(ws, s). length s)") (auto simp: find_Some_iff prefix_def)

declare strip.simps [simp del]

definition trim :: "string \<Rightarrow> string" where
  "trim s = rev (strip (map rev whitespace) (rev (strip whitespace s)))"

text \<open>
  \<open>s.replaceAll(pat, rep)\<close> for a string pattern, left to right without overlap; the
  replacement is taken literally (no \<open>$\<close> pattern occurs in the replacements used).
\<close>

function replaceAll :: "string \<Rightarrow> string \<Rightarrow> string \<Rightarrow> string" where
  "replaceAll [] pat rep = (if pat = [] then rep else [])"
| "replaceAll (c # cs) pat rep =
     (if pat = [] then rep @ c # replaceAll cs pat rep
      else if prefix pat (c # cs) then rep @ replaceAll (drop (length pat) (c # cs)) pat rep
      else c # replaceAll cs pat rep)"
  by pat_completeness auto
termination
  by (relation "measure (\<lambda>(s, pat, rep). length s)") auto

text \<open>\<open>xs.join(sep)\<close>\<close>

fun join :: "string \<Rightarrow> string list \<Rightarrow> string" where
  "join sep [] = []"
| "join sep [x] = x"
| "join sep (x # y # ys) = x @ sep @ join sep (y # ys)"

definition addLog :: "LogLevel \<Rightarrow> string \<Rightarrow> string \<Rightarrow> State \<Rightarrow> State" where
  "addLog lv msg u s = s\<lparr>logs := logs s @ [\<lparr>e_id = u, level = lv, message = msg\<rparr>]\<rparr>"

text \<open>
  \<open>runTerminal()\<close>; \<open>u 0\<close> and \<open>u 1\<close> are the ids generated for the log entries. The
  state updates are applied in the order the handler issues them.
\<close>

definition runTerminal :: "(nat \<Rightarrow> string) \<Rightarrow> State \<Rightarrow> error + State" where
  "runTerminal u s =
     (let cmd = trim (termInput s) in
      if cmd = '''' then Inr s
      else
        (let s1 = addLog Info (''> '' @ cmd) (u 0) s in
         if cmd = ''!help'' then Inr ((addLog Success ''!run !fix code !list !clear !help'' (u 1) s1)\<lparr>termInput := ''''\<rparr>)
         else if cmd = ''!run'' then Inr ((addLog Success ''Preview executed.'' (u 1) s1)\<lparr>termInput := ''''\<rparr>)
         else if cmd = ''!fix code'' then
           (case activeFile s of
              None \<Rightarrow> Inr ((addLog Error ''No active file.'' (u 1) s1)\<lparr>termInput := ''''\<rparr>)
            | Some af \<Rightarrow>
                Inr ((addLog Success ''Applied quick fix: var -> const'' (u 1)
                       (patchProject (\<lambda>p. p\<lparr>files := map (\<lambda>f. if f_id f = f_id af
                            then f\<lparr>content := replaceAll (content f) ''var '' ''const ''\<rparr> else f) (files p)\<rparr>) s1))
                     \<lparr>termInput := ''''\<rparr>))
         else if cmd = ''!list'' then
           (case project s of
              None \<Rightarrow> Inl TypeError
            | Some pr \<Rightarrow> Inr ((addLog Info (join '', '' (map f_name (files pr))) (u 1) s1)\<lparr>termInput := ''''\<rparr>))
         else if cmd = ''!clear'' then Inr (s1\<lparr>logs := [], termInput := ''''\<rparr>)
         else Inr ((addLog Error ''Unknown command'' (u 1) s1)\<lparr>termInput := ''''\<rparr>)))"

section \<open>Workspaces\<close>

text \<open>\<open>makeDefaultFiles()\<close> and \<open>makeProject(name, type)\<close>; \<open>u k\<close> is the value of the
  \<open>k\<close>-th call of \<open>uid()\<close>.\<close>

definition makeDefaultFiles :: "(nat \<Rightarrow> string) \<Rightarrow> FileItem list" where
  "makeDefaultFiles u =
     [\<lparr>f_id = u 0, f_name = ''src'', kind = Folder, content = '''', parentId = None\<rparr>,
      \<lparr>f_id = u 1, f_name = ''CodeSpace.cs'', kind = File, content = ''// Core scripts'', parentId = Some (u 0)\<rparr>,
      \<lparr>f_id = u 2, f_name = ''React Hooks.rh'', kind = File, content = ''// Hooks registry'', parentId = Some (u 0)\<rparr>,
      \<lparr>f_id = u 3, f_name = ''Server Utilities.su'', kind = File, content = ''// Server utilities'', parentId = Some (u 0)\<rparr>,
      \<lparr>f_id = u 4, f_name = ''index.html'', kind = File, content = ''<h1>CodeFlow IDE v1</h1>'', parentId = None\<rparr>,
      \<lparr>f_id = u 5, f_name = ''styles.css'', kind = File,
        content = ''body{font-family:Inter,sans-serif;background:#111827;color:#e5e7eb}'', parentId = None\<rparr>,
      \<lparr>f_id = u 6, f_name = ''main.js'', kind = File, content = ''console.log('' @ [CHR 0x27] @ ''CodeFlow v1 loaded'' @ [CHR 0x27] @ '')'', parentId = None\<rparr>]"

definition makeProject :: "string \<Rightarrow> ProjectType \<Rightarrow> (nat \<Rightarrow> string) \<Rightarrow> Project" where
  "makeProject nm ty u =
     \<lparr>p_id = u 0, p_name = nm, p_type = ty, files = makeDefaultFiles (\<lambda>k. u (Suc k)),
      connected = [], collaborators = [],
      collections = [''3D Models'' \<mapsto> [], ''appData'' \<mapsto> []], apiKeys = []\<rparr>"

text \<open>
  The button that adds a workspace; \<open>nm\<close> is what the prompt returned and \<open>ok\<close> the
  answer to the confirmation.
\<close>

definition createWorkspace :: "string option \<Rightarrow> bool \<Rightarrow> (nat \<Rightarrow> string) \<Rightarrow> State \<Rightarrow> State" where
  "createWorkspace nm ok u s =
     (let dflt = ''Workspace '' @ digits (length (projects s) + 1);
          name = (case nm of None \<Rightarrow> dflt | Some n \<Rightarrow> if n = '''' then dflt else n);
          p = makeProject name (if ok then ThreeD else TwoD) u
      in s\<lparr>projects := projects s @ [p], activeProjectId := p_id p\<rparr>)"

text \<open>
  The button \<open>Delete\<close> of the workspace panel. \<open>Inl (e, s')\<close> says that the handler
  threw \<open>e\<close> after the state writes that give \<open>s'\<close>. When no workspace is left over,
  which takes workspaces that all have the id of the active one, \<open>setProjects\<close> was called
  with the empty list before \<open>remaining[0].id\<close> throws: the list of workspaces is empty
  afterwards.
\<close>

definition deleteWorkspace :: "State \<Rightarrow> (error \<times> State) + State" where
  "deleteWorkspace s =
     (if length (projects s) = 1 then Inr s
      else
        (case project s of
           None \<Rightarrow> Inl (TypeError, s\<lparr>projects := []\<rparr>)
         | Some pr \<Rightarrow>
             (case filter (\<lambda>p. p_id p \<noteq> p_id pr) (projects s) of
                [] \<Rightarrow> Inl (TypeError, s\<lparr>projects := []\<rparr>)
              | r # rs \<Rightarrow> Inr (s\<lparr>projects := r # rs, activeProjectId := p_id r\<rparr>))))"

text \<open>
  The startup effect: \<open>raw\<close> is the parsed content of the storage key
  \<open>codeflow-v1\<close>, \<open>None\<close> when the key is not set.
\<close>

record Persisted =
  ps_auth :: Auth
  ps_projects :: "Project list"
  ps_activeProjectId :: string

definition startup :: "Persisted option \<Rightarrow> (nat \<Rightarrow> string) \<Rightarrow> State \<Rightarrow> error + State" where
  "startup raw u s =
     (case raw of
        Some parsed \<Rightarrow>
          Inr (s\<lparr>auth := ps_auth parsed,
                 projects := (if ps_projects parsed \<noteq> [] then ps_projects parsed
                              else [makeProject ''Main Workspace'' TwoD u]),
                 activeProjectId :=
                   (if ps_activeProjectId parsed \<noteq> '''' then ps_activeProjectId parsed
                    else (case ps_projects parsed of [] \<Rightarrow> '''' | p # _ \<Rightarrow> p_id p))\<rparr>)
      | None \<Rightarrow>
          (if activeProjectId s \<noteq> '''' then Inr s
           else (case projects s of [] \<Rightarrow> Inl TypeError | p # _ \<Rightarrow> Inr (s\<lparr>activeProjectId := p_id p\<rparr>))))"

section \<open>Cross-tab synchronisation\<close>

text \<open>
  The channel of the component, and the type the receiver casts a message to; its
  properties in the source are \<open>type\<close>, \<open>projectId\<close>, \<open>fileId\<close>, \<open>content\<close> and
  \<open>actor\<close>.
\<close>

definition channelName :: string where
  "channelName = ''codeflow-collab''"

record SyncMessage =
  m_type :: string
  m_projectId :: string
  m_fileId :: string
  m_content :: string
  m_actor :: string

text \<open>
  \<open>onChange\<close> of the editor: the new state, and the channel and the object given to
  \<open>postMessage\<close> when one is posted. The object is the literal
  \<open>{ type: "sync", projectId: project.id, fileId: activeFile.id, content: v, actor: "remote" }\<close>,
  a map from property names to values.
\<close>

definition onChange :: "string \<Rightarrow> State \<Rightarrow> State \<times> (string \<times> (string \<rightharpoonup> jsval)) option" where
  "onChange v s =
     (case project s of
        None \<Rightarrow> (s, None)
      | Some pr \<Rightarrow>
          (case activeFile s of
             None \<Rightarrow> (s, None)
           | Some af \<Rightarrow>
               (patchProject (\<lambda>p. p\<lparr>files := map (\<lambda>f. if f_id f = f_id af then f\<lparr>content := v\<rparr> else f) (files p)\<rparr>) s,
                if auth s = User
                then Some (channelName,
                           [''type'' \<mapsto> JStr ''sync'', ''projectId'' \<mapsto> JStr (p_id pr),
                            ''fileId'' \<mapsto> JStr (f_id af), ''content'' \<mapsto> JStr v,
                            ''actor'' \<mapsto> JStr ''remote''])
                else None)))"

text \<open>\<open>onmessage\<close> of the channel; \<open>u\<close> is the id generated for the log entry.\<close>

definition onmessage :: "SyncMessage \<Rightarrow> string \<Rightarrow> State \<Rightarrow> State" where
  "onmessage msg u s =
     (if m_type msg \<noteq> ''sync'' \<or> m_actor msg \<noteq> ''remote'' then s
      else s\<lparr>projects := map (\<lambda>p. if p_id p \<noteq> m_projectId msg then p
                  else p\<lparr>files := map (\<lambda>f. if f_id f = m_fileId msg then f\<lparr>content := m_content msg\<rparr> else f) (files p)\<rparr>)
                (projects s),
             logs := logs s @ [\<lparr>e_id = u, level = Info, message = ''Collab update received''\<rparr>]\<rparr>)"

text \<open>
  \<open>syncConnected()\<close>; \<open>u j k\<close> is the id generated for the copy of the \<open>k\<close>-th source
  file in the \<open>j\<close>-th project of the list, \<open>ul\<close> the id of the log entry.
\<close>

definition syncConnected :: "(nat \<Rightarrow> nat \<Rightarrow> string) \<Rightarrow> string \<Rightarrow> State \<Rightarrow> error + State" where
  "syncConnected u ul s =
     (case project s of
        None \<Rightarrow> Inl TypeError
      | Some pr \<Rightarrow>
          if connected pr = [] then Inr s
          else
            (let src = map_option f_id (find (\<lambda>x. f_name x = ''src'') (files pr));
                 sourceFiles = filter (\<lambda>f. parentId f = None \<or> (src \<noteq> None \<and> parentId f = src)) (files pr)
             in Inr (addLog Success ''Synced resources to connected workspaces.'' ul
                  (s\<lparr>projects := map (\<lambda>(j, p). if p_id p \<in> set (connected pr)
                         then p\<lparr>files := files p @ map (\<lambda>(k, f). f\<lparr>f_id := u j k\<rparr>) (enumerate 0 sourceFiles)\<rparr>
                         else p)
                       (enumerate 0 (projects s))\<rparr>))))"

text \<open>
  The operations that write the workspace list, and the state that each of them leaves.
  \<open>startup\<close> and \<open>syncConnected\<close> throw before they write anything.
\<close>

datatype action =
    Patch "Project \<Rightarrow> Project"
  | CreateWorkspace "string option" bool "nat \<Rightarrow> string"
  | DeleteWorkspace
  | Startup "Persisted option" "nat \<Rightarrow> string"
  | Receive SyncMessage string
  | SyncConnected "nat \<Rightarrow> nat \<Rightarrow> string" string

definition unwritten :: "State \<Rightarrow> error + State \<Rightarrow> (error \<times> State) + State" where
  "unwritten s r = (case r of Inl e \<Rightarrow> Inl (e, s) | Inr s' \<Rightarrow> Inr s')"

fun step :: "action \<Rightarrow> State \<Rightarrow> (error \<times> State) + State" where
  "step (Patch cb) s = Inr (patchProject cb s)"
| "step (CreateWorkspace nm ok u) s = Inr (createWorkspace nm ok u s)"
| "step DeleteWorkspace s = deleteWorkspace s"
| "step (Startup raw u) s = unwritten s (startup raw u s)"
| "step (Receive msg u) s = Inr (onmessage msg u s)"
| "step (SyncConnected u ul) s = unwritten s (syncConnected u ul s)"

definition stateAfter :: "(error \<times> State) + State \<Rightarrow> State" where
  "stateAfter r = (case r of Inl (e, s) \<Rightarrow> s | Inr s \<Rightarrow> s)"

text \<open>The state after a sequence of operations; the page goes on after a handler threw.\<close>

fun run :: "action list \<Rightarrow> State \<Rightarrow> State" where
  "run [] s = s"
| "run (a # as) s = run as (stateAfter (step a s))"

text \<open>
  The operations under which the ids of the workspaces stay pairwise different: a patch
  leaves the id of a workspace alone (as every callback of the source does), the id
  generated for a new workspace is not in the list, and the stored list has no id twice.
\<close>

fun freshIds :: "action \<Rightarrow> State \<Rightarrow> bool" where
  "freshIds (Patch cb) s = (\<forall>p\<in>set (projects s). p_id (cb p) = p_id p)"
| "freshIds (CreateWorkspace nm ok u) s = (u 0 \<notin> set (map p_id (projects s)))"
| "freshIds (Startup raw u) s =
     (case raw of None \<Rightarrow> True | Some parsed \<Rightarrow> distinct (map p_id (ps_projects parsed)))"
| "freshIds a s = True"

fun freshRun :: "action list \<Rightarrow> State \<Rightarrow> bool" where
  "freshRun [] s = True"
| "freshRun (a # as) s = (freshIds a s \<and> freshRun as (stateAfter (step a s)))"

section \<open>Comparison functions\<close>



section \<open>Sample states\<close>

text \<open>A workspace with a folder \<open>src\<close> that holds \<open>a.js\<close>, and \<open>index.html\<close> at the root.\<close>

definition sample_files :: "FileItem list" where
  "sample_files =
     [\<lparr>f_id = ''f1'', f_name = ''src'', kind = Folder, content = '''', parentId = None\<rparr>,
      \<lparr>f_id = ''f2'', f_name = ''a.js'', kind = File, content = ''var x = 1'', parentId = Some ''f1''\<rparr>,
      \<lparr>f_id = ''f3'', f_name = ''index.html'', kind = File, content = ''<h1>hi</h1>'', parentId = None\<rparr>]"

definition sample_doc :: CollectionDoc where
  "sample_doc = [''id'' \<mapsto> JStr ''k3x9q2ab'', ''name'' \<mapsto> JStr ''doc'', ''text'' \<mapsto> JStr ''hi'']"

definition sample_project :: Project where
  "sample_project =
     \<lparr>p_id = ''p1'', p_name = ''Main Workspace'', p_type = TwoD, files = sample_files,
      connected = [], collaborators = [],
      collections = [''notes'' \<mapsto> [sample_doc]],
      apiKeys = []\<rparr>"

definition sample_state :: State where
  "sample_state =
     \<lparr>auth = User, projects = [sample_project], activeProjectId = ''p1'', activeFileId = ''f2'',
      openTabs = [''f2'', ''f3''], search = '''', selectedIds = [], moveTarget = None, logs = [],
      termInput = ''!fix code''\<rparr>"

text \<open>A workspace with a folder \<open>lib\<close> inside a folder \<open>app\<close>.\<close>

definition nested_files :: "FileItem list" where
  "nested_files =
     [\<lparr>f_id = ''a'', f_name = ''app'', kind = Folder, content = '''', parentId = None\<rparr>,
      \<lparr>f_id = ''b'', f_name = ''lib'', kind = Folder, content = '''', parentId = Some ''a''\<rparr>]"

definition nested_state :: State where
  "nested_state =
     \<lparr>auth = Guest,
      projects = [\<lparr>p_id = ''p1'', p_name = ''Main Workspace'', p_type = TwoD, files = nested_files,
                   connected = [], collaborators = [], collections = Map.empty, apiKeys = []\<rparr>],
      activeProjectId = ''p1'', activeFileId = '''', openTabs = [], search = '''', selectedIds = [],
      moveTarget = None, logs = [], termInput = ''''\<rparr>"

text \<open>A supply of generated ids.\<close>

definition sample_uid :: "nat \<Rightarrow> string" where
  "sample_uid k = ''u'' @ digits k"

text \<open>The two folders of \<open>nested_files\<close>, each with the other as its parent.\<close>

definition cyclic_files :: "FileItem list" where
  "cyclic_files =
     [\<lparr>f_id = ''a'', f_name = ''app'', kind = Folder, content = '''', parentId = Some ''b''\<rparr>,
      \<lparr>f_id = ''b'', f_name = ''lib'', kind = Folder, content = '''', parentId = Some ''a''\<rparr>]"

definition cyclic_state :: State where
  "cyclic_state =
     nested_state\<lparr>projects :=
       [\<lparr>p_id = ''p1'', p_name = ''Main Workspace'', p_type = TwoD, files = cyclic_files,
         connected = [], collaborators = [], collections = Map.empty, apiKeys = []\<rparr>]\<rparr>"

text \<open>A supply of generated ids whose first value is the id of the sample workspace.\<close>

definition repeating_uid :: "nat \<Rightarrow> string" where
  "repeating_uid k = (if k = 0 then ''p1'' else sample_uid k)"




section \<open>Facts about the hierarchy operations\<close>

lemma flatMapO_None_iff: "flatMapO f xs = None \<longleftrightarrow> (\<exists>x\<in>set xs. f x = None)"
  by (induction xs) (auto split: option.splits)

lemma flatMapO_Some_concat:
  "flatMapO f xs = Some r \<Longrightarrow> r = concat (map (\<lambda>x. the (f x)) xs)"
  by (induction xs arbitrary: r) (auto split: option.splits)

lemma flatMapO_Some_iff:
  "flatMapO f xs = Some r \<longleftrightarrow>
     (\<forall>x\<in>set xs. f x \<noteq> None) \<and> r = concat (map (\<lambda>x. the (f x)) xs)"
proof
  assume "flatMapO f xs = Some r"
  then show "(\<forall>x\<in>set xs. f x \<noteq> None) \<and> r = concat (map (\<lambda>x. the (f x)) xs)"
    using flatMapO_None_iff [of f xs] flatMapO_Some_concat [of f xs r] by auto
next
  assume a: "(\<forall>x\<in>set xs. f x \<noteq> None) \<and> r = concat (map (\<lambda>x. the (f x)) xs)"
  then have "flatMapO f xs \<noteq> None"
    by (simp add: flatMapO_None_iff)
  then obtain r' where r': "flatMapO f xs = Some r'" by auto
  with a flatMapO_Some_concat [OF r'] show "flatMapO f xs = Some r" by simp
qed

lemma flatMapO_cong_set:
  "(\<And>x. x \<in> set xs \<Longrightarrow> f x = g x) \<Longrightarrow> flatMapO f xs = flatMapO g xs"
  by (induction xs) (auto split: option.splits)

lemma child_rel_iff:
  "(k, p) \<in> child_rel fs \<longleftrightarrow> (\<exists>f\<in>set fs. f_id f = k \<and> parentId f = Some p)"
  by (induction fs) (auto simp: child_rel_def split: option.splits)

lemma kids_set:
  "set (map f_id (filter (\<lambda>f. parentId f = Some i) fs)) = {k. (k, i) \<in> child_rel fs}"
  by (auto simp: child_rel_iff)

lemma descendants_mono:
  "descendants n fs i = Some ds \<Longrightarrow> n \<le> m \<Longrightarrow> descendants m fs i = Some ds"
proof (induction n arbitrary: m i ds)
  case 0
  then show ?case by simp
next
  case (Suc n)
  from Suc.prems(2) obtain m' where m: "m = Suc m'" and le: "n \<le> m'"
    by (cases m) auto
  define kids where "kids = map f_id (filter (\<lambda>f. parentId f = Some i) fs)"
  define g where "g = (\<lambda>j k. case descendants j fs k of None \<Rightarrow> None | Some ds \<Rightarrow> Some (k # ds))"
  have unf: "descendants (Suc j) fs i = flatMapO (g j) kids" for j
    by (simp add: kids_def g_def)
  from Suc.prems(1) have "flatMapO (g n) kids = Some ds"
    by (simp only: unf)
  then have all: "\<forall>k\<in>set kids. g n k \<noteq> None"
    by (simp add: flatMapO_Some_iff)
  have "g m' k = g n k" if "k \<in> set kids" for k
  proof -
    from all that have "g n k \<noteq> None" by blast
    then obtain d where d: "descendants n fs k = Some d"
      by (auto simp: g_def split: option.splits)
    from Suc.IH [OF d le] have "descendants m' fs k = Some d" .
    with d show ?thesis by (simp add: g_def)
  qed
  then have "flatMapO (g m') kids = flatMapO (g n) kids"
    by (rule flatMapO_cong_set)
  with \<open>flatMapO (g n) kids = Some ds\<close> show ?case
    by (simp only: m unf)
qed

lemma descendants_unfold:
  "descendants (Suc n) fs i =
     flatMapO (\<lambda>k. case descendants n fs k of None \<Rightarrow> None | Some ds \<Rightarrow> Some (k # ds))
       (map f_id (filter (\<lambda>f. parentId f = Some i) fs))"
  by simp

lemma descendants_set:
  "descendants n fs i = Some ds \<Longrightarrow> set ds = {x. (x, i) \<in> (child_rel fs)\<^sup>+}"
proof (induction n arbitrary: i ds)
  case 0
  then show ?case by simp
next
  case (Suc n)
  define kids where "kids = map f_id (filter (\<lambda>f. parentId f = Some i) fs)"
  define g where "g = (\<lambda>k. case descendants n fs k of None \<Rightarrow> None | Some ds \<Rightarrow> Some (k # ds))"
  from Suc.prems have fm: "flatMapO g kids = Some ds"
    by (simp only: descendants_unfold kids_def g_def)
  then have all: "\<forall>k\<in>set kids. g k \<noteq> None"
    and ds: "ds = concat (map (\<lambda>k. the (g k)) kids)"
    by (simp_all add: flatMapO_Some_iff)
  have kids: "set kids = {k. (k, i) \<in> child_rel fs}"
    unfolding kids_def by (rule kids_set)
  have sub: "set (the (g k)) = insert k {x. (x, k) \<in> (child_rel fs)\<^sup>+}"
    if "k \<in> set kids" for k
  proof -
    from all that have "g k \<noteq> None" by blast
    then obtain d where d: "descendants n fs k = Some d"
      by (auto simp: g_def split: option.splits)
    from Suc.IH [OF d] have "set d = {x. (x, k) \<in> (child_rel fs)\<^sup>+}" .
    with d show ?thesis by (simp add: g_def)
  qed
  have "set ds = (\<Union>k\<in>set kids. set (the (g k)))"
    by (simp add: ds)
  also have "\<dots> = (\<Union>k\<in>set kids. insert k {x. (x, k) \<in> (child_rel fs)\<^sup>+})"
    using sub by blast
  also have "\<dots> = (\<Union>k\<in>{k. (k, i) \<in> child_rel fs}. insert k {x. (x, k) \<in> (child_rel fs)\<^sup>+})"
    by (simp only: kids)
  also have "\<dots> = {x. (x, i) \<in> (child_rel fs)\<^sup>+}"
  proof (intro set_eqI iffI)
    fix x
    assume "x \<in> (\<Union>k\<in>{k. (k, i) \<in> child_rel fs}. insert k {x. (x, k) \<in> (child_rel fs)\<^sup>+})"
    then obtain k where k: "(k, i) \<in> child_rel fs" and x: "x = k \<or> (x, k) \<in> (child_rel fs)\<^sup>+"
      by blast
    from x show "x \<in> {x. (x, i) \<in> (child_rel fs)\<^sup>+}"
    proof
      assume "x = k"
      with k show ?thesis by blast
    next
      assume "(x, k) \<in> (child_rel fs)\<^sup>+"
      from trancl_into_trancl [OF this k] show ?thesis by simp
    qed
  next
    fix x
    assume "x \<in> {x. (x, i) \<in> (child_rel fs)\<^sup>+}"
    then have "(x, i) \<in> (child_rel fs)\<^sup>+" by simp
    then have "(x, i) \<in> child_rel fs \<or> (\<exists>k. (x, k) \<in> (child_rel fs)\<^sup>+ \<and> (k, i) \<in> child_rel fs)"
      by (rule tranclE) blast+
    then show "x \<in> (\<Union>k\<in>{k. (k, i) \<in> child_rel fs}. insert k {x. (x, k) \<in> (child_rel fs)\<^sup>+})"
      by blast
  qed
  finally show ?case .
qed

lemma finite_child_rel: "finite (child_rel fs)"
  by (simp add: child_rel_def)

lemma forest_wf: "forest fs \<Longrightarrow> wf (child_rel fs)"
  unfolding forest_def by (rule finite_acyclic_wf [OF finite_child_rel])

lemma descendants_returns:
  assumes "forest fs"
  shows "\<exists>n ds. descendants n fs i = Some ds"
  using forest_wf [OF assms]
proof (induction i rule: wf_induct_rule)
  case (less i)
  define kids where "kids = map f_id (filter (\<lambda>f. parentId f = Some i) fs)"
  have kids: "set kids = {k. (k, i) \<in> child_rel fs}"
    unfolding kids_def by (rule kids_set)
  have each: "\<exists>n ds. descendants n fs k = Some ds" if "k \<in> set kids" for k
    using less that kids by blast
  have "\<exists>N. \<forall>k\<in>set ks. \<exists>ds. descendants N fs k = Some ds"
    if "set ks \<subseteq> set kids" for ks
    using that
  proof (induction ks)
    case Nil
    then show ?case by simp
  next
    case (Cons k ks)
    then obtain N where N: "\<forall>k\<in>set ks. \<exists>ds. descendants N fs k = Some ds"
      by auto
    from Cons.prems have "k \<in> set kids" by simp
    from each [OF this] obtain n d where n: "descendants n fs k = Some d"
      by blast
    have "\<exists>ds. descendants (max n N) fs k' = Some ds" if "k' \<in> set (k # ks)" for k'
    proof (cases "k' = k")
      case True
      with descendants_mono [OF n, of "max n N"] show ?thesis by simp
    next
      case False
      with that N obtain d' where "descendants N fs k' = Some d'" by auto
      from descendants_mono [OF this, of "max n N"] show ?thesis by simp
    qed
    then show ?case by blast
  qed
  then obtain N where N: "\<forall>k\<in>set kids. \<exists>ds. descendants N fs k = Some ds"
    by blast
  define g where "g = (\<lambda>k. case descendants N fs k of None \<Rightarrow> None | Some ds \<Rightarrow> Some (k # ds))"
  from N have "\<forall>k\<in>set kids. g k \<noteq> None"
    by (auto simp: g_def)
  then have "flatMapO g kids \<noteq> None"
    by (simp add: flatMapO_None_iff)
  then have "descendants (Suc N) fs i \<noteq> None"
    unfolding descendants_unfold kids_def g_def .
  then show ?case by blast
qed

lemma find_map_preserving:
  "(\<And>p. P (h p) = P p) \<Longrightarrow> find P (map h ps) = map_option h (find P ps)"
  by (induction ps) auto

lemma project_patchProject:
  assumes "\<And>p. p_id (cb p) = p_id p"
  shows "project (patchProject cb s) = map_option cb (project s)"
proof (cases "project s")
  case None
  then show ?thesis by (simp add: patchProject_def)
next
  case (Some pr)
  define h where "h = (\<lambda>p. if p_id p = p_id pr then cb p else p)"
  have hid: "p_id (h p) = p_id p" for p
    by (simp add: h_def assms)
  have s': "patchProject cb s = s\<lparr>projects := map h (projects s)\<rparr>"
    by (simp add: patchProject_def Some h_def)
  have fnd: "find (\<lambda>p. p_id p = a) (map h ps) = map_option h (find (\<lambda>p. p_id p = a) ps)" for a ps
    by (rule find_map_preserving) (simp add: hid)
  have act: "activeProjectId (patchProject cb s) = activeProjectId s"
    and prj: "projects (patchProject cb s) = map h (projects s)"
    by (simp_all add: s')
  show ?thesis
  proof (cases "find (\<lambda>p. p_id p = activeProjectId s) (projects s)")
    case None
    with Some obtain q qs where ps: "projects s = q # qs" and pr: "pr = q"
      by (auto simp: project_def split: list.splits)
    have "find (\<lambda>p. p_id p = activeProjectId s) (map h (projects s)) = None"
      by (simp only: fnd None option.map)
    then have "project (patchProject cb s) = (case map h (projects s) of [] \<Rightarrow> None | p # _ \<Rightarrow> Some p)"
      by (simp only: project_def act prj option.case)
    also have "\<dots> = Some (h q)"
      by (simp add: ps)
    finally show ?thesis
      using \<open>project s = Some pr\<close> pr by (simp add: h_def)
  next
    case (Some q)
    with \<open>project s = Some pr\<close> have pr: "pr = q"
      by (simp add: project_def)
    have "find (\<lambda>p. p_id p = activeProjectId s) (map h (projects s)) = Some (h q)"
      by (simp only: fnd Some option.map)
    then have "project (patchProject cb s) = Some (h q)"
      by (simp only: project_def act prj option.case)
    with \<open>project s = Some pr\<close> pr show ?thesis by (simp add: h_def)
  qed
qed

lemma closure_closed:
  assumes "f \<in> set fs" and "parentId f = Some p" and "p \<in> closure fs i"
  shows "f_id f \<in> closure fs i"
proof -
  from assms(1,2) have e: "(f_id f, p) \<in> child_rel fs"
    by (auto simp: child_rel_iff)
  from assms(3) have "p = i \<or> (p, i) \<in> (child_rel fs)\<^sup>+"
    by (simp add: closure_def)
  then have "(f_id f, i) \<in> (child_rel fs)\<^sup>+"
  proof
    assume "p = i"
    with e show ?thesis by blast
  next
    assume "(p, i) \<in> (child_rel fs)\<^sup>+"
    from trancl_into_trancl2 [OF e this] show ?thesis .
  qed
  then show ?thesis by (simp add: closure_def)
qed

lemma deleteFile_result:
  assumes pr: "project s = Some pr" and d: "descendants n (files pr) i = Some ds"
  shows "deleteFile n i s =
     Inr ((patchProject (\<lambda>p. p\<lparr>files := filter (\<lambda>f. f_id f \<notin> closure (files pr) i) (files p)\<rparr>) s)
           \<lparr>openTabs := filter (\<lambda>x. x \<notin> closure (files pr) i) (openTabs s),
            activeFileId := (if activeFileId s \<in> closure (files pr) i then '''' else activeFileId s)\<rparr>)"
proof -
  from descendants_set [OF d] have "set (i # ds) = closure (files pr) i"
    by (simp add: closure_def)
  then show ?thesis
    by (simp only: deleteFile_def pr d option.case Let_def)
qed

lemma project_tabs_update:
  "project (s\<lparr>openTabs := t, activeFileId := a\<rparr>) = project s"
  by (simp add: project_def split: option.split)

lemma acyclic_empty: "acyclic {}"
  by (simp add: acyclic_def)

lemma sample_forest: "forest sample_files"
  by (simp add: forest_def child_rel_def sample_files_def acyclic_empty)

lemma sample_project_active: "project sample_state = Some sample_project"
  by (simp add: project_def sample_state_def sample_project_def)

lemma sample_delete:
  "deleteFile 2 ''f1'' sample_state =
     Inr (sample_state\<lparr>projects := [sample_project\<lparr>files :=
            [\<lparr>f_id = ''f3'', f_name = ''index.html'', kind = File, content = ''<h1>hi</h1>'', parentId = None\<rparr>]\<rparr>],
          openTabs := [''f3''], activeFileId := ''''\<rparr>)"
  by (simp add: deleteFile_def project_def patchProject_def sample_state_def sample_project_def
      sample_files_def eval_nat_numeral)

text \<open>
  C2. Deleting a node from a forest-shaped hierarchy returns, and removes exactly the node
  and everything below it: the active project keeps, unchanged and in order, the files
  whose id is outside the closure of \<open>i\<close>, and no file that is left has a parent
  reference into the closure.
\<close>

theorem deleteFile_removes_closure:
  assumes "project s = Some pr" and "forest (files pr)"
  shows "\<exists>n. \<forall>m\<ge>n. \<exists>s' pr'.
           deleteFile m i s = Inr s' \<and> project s' = Some pr' \<and>
           pr' = pr\<lparr>files := filter (\<lambda>f. f_id f \<notin> closure (files pr) i) (files pr)\<rparr> \<and>
           (\<forall>f\<in>set (files pr'). f_id f \<notin> closure (files pr) i \<and>
              (\<forall>p. parentId f = Some p \<longrightarrow> p \<notin> closure (files pr) i))"
proof -
  from descendants_returns [OF assms(2)] obtain n ds
    where d: "descendants n (files pr) i = Some ds" by blast
  define cb :: "Project \<Rightarrow> Project"
    where "cb = (\<lambda>p. p\<lparr>files := filter (\<lambda>f. f_id f \<notin> closure (files pr) i) (files p)\<rparr>)"
  have cbid: "p_id (cb p) = p_id p" for p
    by (simp add: cb_def)
  have "\<exists>s' pr'.
           deleteFile m i s = Inr s' \<and> project s' = Some pr' \<and>
           pr' = pr\<lparr>files := filter (\<lambda>f. f_id f \<notin> closure (files pr) i) (files pr)\<rparr> \<and>
           (\<forall>f\<in>set (files pr'). f_id f \<notin> closure (files pr) i \<and>
              (\<forall>p. parentId f = Some p \<longrightarrow> p \<notin> closure (files pr) i))"
    if "n \<le> m" for m
  proof -
    from descendants_mono [OF d that] have dm: "descendants m (files pr) i = Some ds" .
    define s' where "s' = (patchProject cb s)
           \<lparr>openTabs := filter (\<lambda>x. x \<notin> closure (files pr) i) (openTabs s),
            activeFileId := (if activeFileId s \<in> closure (files pr) i then '''' else activeFileId s)\<rparr>"
    have r: "deleteFile m i s = Inr s'"
      unfolding s'_def cb_def by (rule deleteFile_result [OF assms(1) dm])
    have p': "project s' = Some (cb pr)"
      unfolding s'_def
      by (simp only: project_tabs_update project_patchProject [of cb, OF cbid] assms(1) option.map)
    have inner: "f_id f \<notin> closure (files pr) i \<and> (\<forall>p. parentId f = Some p \<longrightarrow> p \<notin> closure (files pr) i)"
      if "f \<in> set (files (cb pr))" for f
    proof -
      from that have f: "f \<in> set (files pr)" and nin: "f_id f \<notin> closure (files pr) i"
        by (simp_all add: cb_def)
      from closure_closed [OF f] nin show ?thesis by blast
    qed
    show ?thesis
    proof (intro exI conjI)
      show "deleteFile m i s = Inr s'" by (rule r)
      show "project s' = Some (cb pr)" by (rule p')
      show "cb pr = pr\<lparr>files := filter (\<lambda>f. f_id f \<notin> closure (files pr) i) (files pr)\<rparr>"
        by (simp add: cb_def)
      show "\<forall>f\<in>set (files (cb pr)). f_id f \<notin> closure (files pr) i \<and>
              (\<forall>p. parentId f = Some p \<longrightarrow> p \<notin> closure (files pr) i)"
        using inner by blast
    qed
  qed
  then show ?thesis by blast
qed

theorem deleteFile_removes_closure_witness:
  "project sample_state = Some sample_project \<and> forest (files sample_project) \<and>
   (\<exists>n. \<forall>m\<ge>n. \<exists>s' pr'.
      deleteFile m ''f1'' sample_state = Inr s' \<and> project s' = Some pr' \<and>
      pr' = sample_project\<lparr>files := filter (\<lambda>f. f_id f \<notin> closure (files sample_project) ''f1'') (files sample_project)\<rparr> \<and>
      (\<forall>f\<in>set (files pr'). f_id f \<notin> closure (files sample_project) ''f1'' \<and>
         (\<forall>p. parentId f = Some p \<longrightarrow> p \<notin> closure (files sample_project) ''f1''))) \<and>
   deleteFile 2 ''f1'' sample_state =
     Inr (sample_state\<lparr>projects := [sample_project\<lparr>files :=
            [\<lparr>f_id = ''f3'', f_name = ''index.html'', kind = File, content = ''<h1>hi</h1>'', parentId = None\<rparr>]\<rparr>],
          openTabs := [''f3''], activeFileId := ''''\<rparr>)"
proof -
  have p: "project sample_state = Some sample_project"
    by (rule sample_project_active)
  have f: "forest (files sample_project)"
    by (simp add: sample_project_def sample_forest)
  from p f deleteFile_removes_closure [OF p f, of "''f1''"] sample_delete show ?thesis
    by (intro conjI)
qed



text \<open>
  What holds of the hierarchy operations: a new file or folder and a rename leave the
  parent relation as it is, and the move of the context menu never makes a node its own
  parent.
\<close>

lemma child_rel_append_root: "parentId f = None \<Longrightarrow> child_rel (fs @ [f]) = child_rel fs"
  by (auto simp: child_rel_iff)

lemma child_rel_Cons:
  "child_rel (f # fs) =
     (case parentId f of None \<Rightarrow> child_rel fs | Some p \<Rightarrow> insert (f_id f, p) (child_rel fs))"
  by (simp add: child_rel_def split: option.split)

lemma child_rel_rename:
  "child_rel (map (\<lambda>f. if f_id f = i then f\<lparr>f_name := n\<rparr> else f) fs) = child_rel fs"
proof (induction fs)
  case Nil
  then show ?case by simp
next
  case (Cons f fs)
  then show ?case
    by (cases "parentId f") (simp_all add: child_rel_Cons)
qed

lemma forest_append_root: "parentId f = None \<Longrightarrow> forest (fs @ [f]) = forest fs"
  by (simp add: forest_def child_rel_append_root)

lemma forest_rename:
  "forest (map (\<lambda>f. if f_id f = i then f\<lparr>f_name := n\<rparr> else f) fs) = forest fs"
  by (simp add: forest_def child_rel_rename)

lemma insert_rename_keep_forest:
  assumes "project s = Some pr" and "forest (files pr)"
  shows "(\<exists>pr'. project (newFile u u' s) = Some pr' \<and> forest (files pr')) \<and>
         (\<exists>pr'. project (newFolder u u' s) = Some pr' \<and> forest (files pr')) \<and>
         (\<exists>s' pr'. renameFile i nxt s = Inr s' \<and> project s' = Some pr' \<and> forest (files pr'))"
proof (intro conjI)
  show "\<exists>pr'. project (newFile u u' s) = Some pr' \<and> forest (files pr')"
    unfolding newFile_def
    by (subst project_patchProject) (simp_all add: assms forest_append_root)
  show "\<exists>pr'. project (newFolder u u' s) = Some pr' \<and> forest (files pr')"
    unfolding newFolder_def
    by (subst project_patchProject) (simp_all add: assms forest_append_root)
  define cb :: "string \<Rightarrow> Project \<Rightarrow> Project"
    where "cb = (\<lambda>n p. p\<lparr>files := map (\<lambda>f. if f_id f = i then f\<lparr>f_name := n\<rparr> else f) (files p)\<rparr>)"
  have cbid: "p_id (cb n p) = p_id p" for n p
    by (simp add: cb_def)
  have ren: "\<exists>pr'. project (patchProject (cb n) s) = Some pr' \<and> forest (files pr')" for n
    by (subst project_patchProject [OF cbid])
       (use assms in \<open>simp add: cb_def forest_rename\<close>)
  have "renameFile i nxt s = Inr s \<or> (\<exists>n. renameFile i nxt s = Inr (patchProject (cb n) s))"
    by (auto simp: renameFile_def assms(1) cb_def split: option.splits)
  then show "\<exists>s' pr'. renameFile i nxt s = Inr s' \<and> project s' = Some pr' \<and> forest (files pr')"
    using assms ren by blast
qed

lemma moveFile_not_own_parent:
  assumes "moveFile i s = Inr s'" and "project s' = Some pr'" and "f \<in> set (files pr')" and "f_id f = i"
  shows "parentId f \<noteq> Some i"
proof -
  from assms(1) obtain pr where pr: "project s = Some pr"
    by (auto simp: moveFile_def split: option.splits)
  define target where "target = map_option f_id (find (\<lambda>f. kind f = Folder \<and> f_id f \<noteq> i) (files pr))"
  define cb :: "Project \<Rightarrow> Project"
    where "cb = (\<lambda>p. p\<lparr>files := map (\<lambda>f. if f_id f = i then f\<lparr>parentId := target\<rparr> else f) (files p)\<rparr>)"
  have cbid: "p_id (cb p) = p_id p" for p
    by (simp add: cb_def)
  have t: "target \<noteq> Some i"
    by (auto simp: target_def find_Some_iff)
  from assms(1) have "s' = patchProject cb s"
    unfolding cb_def target_def by (auto simp: moveFile_def pr Let_def)
  with assms(2) have "pr' = cb pr"
    by (simp add: project_patchProject [OF cbid] pr)
  with assms(3) obtain g where "g \<in> set (files pr)"
    and "f = (if f_id g = i then g\<lparr>parentId := target\<rparr> else g)"
    by (auto simp: cb_def)
  with assms(4) t show ?thesis
    by (auto split: if_splits)
qed

text \<open>
  The bulk move has no such guard: with the folder \<open>app\<close> selected and \<open>app\<close> the
  destination (the first folder, which \<open>Move selected\<close> picks), \<open>app\<close> becomes its own
  parent.
\<close>

lemma dropIntoFolder_own_parent:
  "project (dropIntoFolder (nested_state\<lparr>selectedIds := [''a''], moveTarget := Some ''a''\<rparr>)) =
     Some \<lparr>p_id = ''p1'', p_name = ''Main Workspace'', p_type = TwoD,
           files = [\<lparr>f_id = ''a'', f_name = ''app'', kind = Folder, content = '''', parentId = Some ''a''\<rparr>,
                    \<lparr>f_id = ''b'', f_name = ''lib'', kind = Folder, content = '''', parentId = Some ''a''\<rparr>],
           connected = [], collaborators = [], collections = Map.empty, apiKeys = []\<rparr>"
  by (simp add: dropIntoFolder_def nested_state_def nested_files_def project_def patchProject_def)

lemma descendants_on_cycle:
  "descendants n cyclic_files ''a'' = None \<and> descendants n cyclic_files ''b'' = None"
proof (induction n)
  case 0
  then show ?case by simp
next
  case (Suc n)
  have ka: "map f_id (filter (\<lambda>f. parentId f = Some ''a'') cyclic_files) = [''b'']"
    and kb: "map f_id (filter (\<lambda>f. parentId f = Some ''b'') cyclic_files) = [''a'']"
    by (simp_all add: cyclic_files_def)
  from Suc show ?case
    by (simp only: descendants_unfold ka kb) simp
qed

text \<open>
  C1. Moving the folder \<open>app\<close> through the context menu, in a workspace whose only other
  folder is its child \<open>lib\<close>, makes \<open>lib\<close> the parent of \<open>app\<close>: the hierarchy was a
  forest before the move and is not one after it. In the state after the move, deleting
  \<open>app\<close> does not return, whatever the bound on the recursion.
\<close>

theorem moveFile_into_descendant:
  "forest nested_files \<and>
   moveFile ''a'' nested_state = Inr cyclic_state \<and>
   project cyclic_state =
     Some \<lparr>p_id = ''p1'', p_name = ''Main Workspace'', p_type = TwoD, files = cyclic_files,
           connected = [], collaborators = [], collections = Map.empty, apiKeys = []\<rparr> \<and>
   find (\<lambda>f. f_id f = ''a'') cyclic_files =
     Some \<lparr>f_id = ''a'', f_name = ''app'', kind = Folder, content = '''', parentId = Some ''b''\<rparr> \<and>
   find (\<lambda>f. f_id f = ''b'') cyclic_files =
     Some \<lparr>f_id = ''b'', f_name = ''lib'', kind = Folder, content = '''', parentId = Some ''a''\<rparr> \<and>
   \<not> forest cyclic_files \<and>
   (\<forall>n. deleteFile n ''a'' cyclic_state = Inl RangeError)"
proof (intro conjI allI)
  show "forest nested_files"
    by (simp add: forest_def child_rel_def nested_files_def acyclic_empty)
  show "moveFile ''a'' nested_state = Inr cyclic_state"
    by (simp add: moveFile_def nested_state_def nested_files_def project_def patchProject_def
        cyclic_state_def cyclic_files_def)
  show p: "project cyclic_state =
     Some \<lparr>p_id = ''p1'', p_name = ''Main Workspace'', p_type = TwoD, files = cyclic_files,
           connected = [], collaborators = [], collections = Map.empty, apiKeys = []\<rparr>"
    by (simp add: project_def cyclic_state_def nested_state_def)
  show "find (\<lambda>f. f_id f = ''a'') cyclic_files =
     Some \<lparr>f_id = ''a'', f_name = ''app'', kind = Folder, content = '''', parentId = Some ''b''\<rparr>"
    by (simp add: cyclic_files_def)
  show "find (\<lambda>f. f_id f = ''b'') cyclic_files =
     Some \<lparr>f_id = ''b'', f_name = ''lib'', kind = Folder, content = '''', parentId = Some ''a''\<rparr>"
    by (simp add: cyclic_files_def)
  have ab: "(''a'', ''b'') \<in> child_rel cyclic_files" and ba: "(''b'', ''a'') \<in> child_rel cyclic_files"
    by (simp_all add: child_rel_def cyclic_files_def)
  from ab ba have "(''a'', ''a'') \<in> (child_rel cyclic_files)\<^sup>+"
    by (rule trancl.intros(2) [OF trancl.intros(1)])
  then show "\<not> forest cyclic_files"
    unfolding forest_def acyclic_def by blast
  show "deleteFile n ''a'' cyclic_state = Inl RangeError" for n
    by (simp add: deleteFile_def p descendants_on_cycle)
qed
section \<open>Facts about the document collection SDK\<close>

lemma mapE_Inr: "(\<And>x. x \<in> set xs \<Longrightarrow> f x = Inr (g x)) \<Longrightarrow> mapE f xs = Inr (map g xs)"
  by (induction xs) simp_all

lemma patchProjectE_Inr:
  assumes "\<And>p. cb' p = Inr (cb p)"
  shows "patchProjectE cb' s = Inr (patchProject cb s)"
proof (cases "project s")
  case None
  then show ?thesis by (simp add: patchProjectE_def patchProject_def)
next
  case (Some pr)
  have "mapE (\<lambda>p. if p_id p = p_id pr then cb' p else Inr p) (projects s) =
      Inr (map (\<lambda>p. if p_id p = p_id pr then cb p else p) (projects s))"
    by (rule mapE_Inr) (simp add: assms)
  with Some show ?thesis by (simp add: patchProjectE_def patchProject_def)
qed

lemma elements_own:
  "name \<notin> set objectPrototypeNames \<Longrightarrow>
   elements (orEmpty (readCollection p name)) = Inr (case collections p name of None \<Rightarrow> [] | Some ds \<Rightarrow> ds)"
  by (simp add: readCollection_def split: option.split)

lemma addDoc_returns:
  "name \<notin> set objectPrototypeNames \<Longrightarrow>
   addDoc name data u s =
     (None, Inr (patchProject (\<lambda>p. p\<lparr>collections := (collections p)
        (name \<mapsto> (case collections p name of None \<Rightarrow> [] | Some ds \<Rightarrow> ds) @ [newDoc u data])\<rparr>) s))"
  unfolding addDoc_def prod.inject
  by (intro conjI refl patchProjectE_Inr) (simp add: elements_own)

lemma updateDoc_returns:
  "name \<notin> set objectPrototypeNames \<Longrightarrow>
   updateDoc name i data s =
     Inr (patchProject (\<lambda>p. p\<lparr>collections := (collections p)
        (name \<mapsto> map (\<lambda>d. if d ''id'' = Some (JStr i) then d ++ data else d)
                    (case collections p name of None \<Rightarrow> [] | Some ds \<Rightarrow> ds))\<rparr>) s)"
  unfolding updateDoc_def
  by (rule patchProjectE_Inr) (simp add: elements_own)

lemma deleteDoc_returns:
  "name \<notin> set objectPrototypeNames \<Longrightarrow>
   deleteDoc name i s =
     Inr (patchProject (\<lambda>p. p\<lparr>collections := (collections p)
        (name \<mapsto> filter (\<lambda>d. d ''id'' \<noteq> Some (JStr i))
                    (case collections p name of None \<Rightarrow> [] | Some ds \<Rightarrow> ds))\<rparr>) s)"
  unfolding deleteDoc_def
  by (rule patchProjectE_Inr) (simp add: elements_own)

lemma getDocs_own:
  assumes "name \<notin> set objectPrototypeNames" and "getDocs name s = Inr (Docs ds)"
  shows "\<exists>pr. project s = Some pr \<and> (case collections pr name of None \<Rightarrow> [] | Some ds \<Rightarrow> ds) = ds"
  using assms by (auto simp: getDocs_def readCollection_def split: option.splits)

lemma project_in_set:
  assumes "project s = Some pr"
  shows "pr \<in> set (projects s)"
proof (cases "find (\<lambda>p. p_id p = activeProjectId s) (projects s)")
  case None
  with assms show ?thesis
    by (cases "projects s") (simp_all add: project_def)
next
  case (Some p)
  with assms have "p = pr"
    by (simp add: project_def)
  with Some show ?thesis
    by (auto simp: find_Some_iff)
qed

lemma patchProject_frame:
  assumes "project s = Some pr"
  shows "patchProject cb s = s\<lparr>projects := projects (patchProject cb s)\<rparr>"
    and "length (projects (patchProject cb s)) = length (projects s)"
    and "k < length (projects s) \<Longrightarrow> p_id (projects s ! k) \<noteq> p_id pr \<Longrightarrow>
         projects (patchProject cb s) ! k = projects s ! k"
  using assms by (simp_all add: patchProject_def)

lemma patchProject_noop:
  assumes "project s = Some pr" and "distinct (map p_id (projects s))" and "cb pr = pr"
  shows "patchProject cb s = s"
proof -
  from assms(1) have pr: "pr \<in> set (projects s)"
    by (rule project_in_set)
  from assms(2) have inj: "inj_on p_id (set (projects s))"
    by (simp add: distinct_map)
  have "(if p_id p = p_id pr then cb p else p) = p" if "p \<in> set (projects s)" for p
  proof (cases "p_id p = p_id pr")
    case True
    with inj that pr have "p = pr" by (auto dest: inj_onD)
    with assms(3) show ?thesis by simp
  next
    case False
    then show ?thesis by simp
  qed
  then have "map (\<lambda>p. if p_id p = p_id pr then cb p else p) (projects s) = projects s"
    by (intro map_idI)
  with assms(1) show ?thesis by (simp add: patchProject_def)
qed

lemma getDocs_patchProject:
  assumes "\<And>p. p_id (cb p) = p_id p"
  shows "getDocs name (patchProject cb s) =
     (case project s of
        None \<Rightarrow> Inl TypeError
      | Some pr \<Rightarrow> Inr (orEmpty (readCollection (cb pr) name)))"
  by (simp add: getDocs_def project_patchProject [of cb, OF assms] split: option.split)

text \<open>
  A patch of the active project that writes the entry of one collection with the
  documents that \<open>getDocs\<close> returns for it.
\<close>

lemma collection_rewritten:
  assumes pr: "project s = Some pr" and ids: "\<And>p. p_id (cb p) = p_id p"
    and cb: "cb pr = pr\<lparr>collections := (collections pr)(name \<mapsto> ds)\<rparr>"
    and g: "getDocs name s = Inr (Docs ds)" and s': "s' = patchProject cb s"
  shows "s' = s\<lparr>projects := projects s'\<rparr>"
    and "length (projects s') = length (projects s)"
    and "\<forall>k<length (projects s). p_id (projects s ! k) \<noteq> p_id pr \<longrightarrow> projects s' ! k = projects s ! k"
    and "project s' = Some (pr\<lparr>collections := (collections pr)(name \<mapsto> ds)\<rparr>)"
    and "name \<in> dom (collections pr) \<longrightarrow> project s' = Some pr"
    and "name \<in> dom (collections pr) \<and> distinct (map p_id (projects s)) \<longrightarrow> s' = s"
    and "\<forall>n. getDocs n s' = getDocs n s"
proof -
  show "s' = s\<lparr>projects := projects s'\<rparr>"
    unfolding s' using pr by (rule patchProject_frame)
  show "length (projects s') = length (projects s)"
    unfolding s' using pr by (rule patchProject_frame)
  show "\<forall>k<length (projects s). p_id (projects s ! k) \<noteq> p_id pr \<longrightarrow> projects s' ! k = projects s ! k"
    unfolding s' using patchProject_frame(3) [OF pr] by blast
  show p': "project s' = Some (pr\<lparr>collections := (collections pr)(name \<mapsto> ds)\<rparr>)"
    unfolding s' by (simp add: project_patchProject [of cb, OF ids] pr cb)
  have own: "cb pr = pr" if "name \<in> dom (collections pr)"
  proof -
    from that g pr have "collections pr name = Some ds"
      by (auto simp: getDocs_def readCollection_def)
    then have "(collections pr)(name \<mapsto> ds) = collections pr"
      by (rule fun_upd_idem)
    then show ?thesis by (simp add: cb)
  qed
  with p' cb show "name \<in> dom (collections pr) \<longrightarrow> project s' = Some pr"
    by simp
  show "name \<in> dom (collections pr) \<and> distinct (map p_id (projects s)) \<longrightarrow> s' = s"
    unfolding s' using patchProject_noop [OF pr, of cb] own by blast
  show "\<forall>n. getDocs n s' = getDocs n s"
  proof
    fix n
    show "getDocs n s' = getDocs n s"
    proof (cases "n = name")
      case True
      with g show ?thesis
        by (simp add: getDocs_def p' readCollection_def)
    next
      case False
      then show ?thesis
        by (simp add: getDocs_def p' pr readCollection_def)
    qed
  qed
qed

lemma sample_notes: "getDocs ''notes'' sample_state = Inr (Docs [sample_doc])"
  by (simp add: getDocs_def sample_project_active readCollection_def) (simp add: sample_project_def)

lemma notes_own: "''notes'' \<notin> set objectPrototypeNames"
  by (simp add: objectPrototypeNames_def)

lemma sample_addDoc:
  "addDoc ''notes'' data u sample_state =
     (None, Inr (sample_state\<lparr>projects := [sample_project\<lparr>collections := [''notes'' \<mapsto> [sample_doc, newDoc u data]]\<rparr>]\<rparr>))"
  by (simp add: addDoc_returns [OF notes_own] patchProject_def sample_project_active)
     (simp add: sample_state_def sample_project_def)

lemma sample_added_notes:
  "getDocs ''notes'' (sample_state\<lparr>projects := [sample_project\<lparr>collections := [''notes'' \<mapsto> ds]\<rparr>]\<rparr>) = Inr (Docs ds)"
  by (simp add: getDocs_def project_def readCollection_def sample_state_def sample_project_def)

lemma sample_inherited:
  "project sample_state = Some sample_project \<and>
   mapE (\<lambda>p. if p_id p = p_id sample_project
             then (case elements (orEmpty (readCollection p ''toString'')) of Inl e \<Rightarrow> Inl e | Inr ds \<Rightarrow> Inr (h p ds))
             else Inr p) (projects sample_state) = Inl TypeError"
  by (simp add: sample_project_active)
     (simp add: sample_state_def sample_project_def readCollection_def objectPrototypeNames_def)

lemma map_unchanged: "\<forall>d\<in>set ds. \<not> P d \<Longrightarrow> map (\<lambda>d. if P d then g d else d) ds = ds"
  by (induction ds) auto

lemma filter_unchanged: "\<forall>d\<in>set ds. Q d \<Longrightarrow> filter Q ds = ds"
  by (induction ds) auto

text \<open>
  C5, as stated, fails on the code. On a collection that does not exist, here \<open>drafts\<close>,
  \<open>updateDoc\<close> and \<open>deleteDoc\<close> change the state: they create the collection. On a
  name that the collection map inherits a property for, here \<open>toString\<close>, they throw a
  \<open>TypeError\<close>.
\<close>

theorem unknown_id_counterexample:
  "project sample_state = Some sample_project \<and>
   dom (collections sample_project) = {''notes''} \<and>
   getDocs ''drafts'' sample_state = Inr (Docs []) \<and>
   updateDoc ''drafts'' ''zz'' [''text'' \<mapsto> JStr ''new''] sample_state =
     Inr (sample_state\<lparr>projects := [sample_project\<lparr>collections := [''notes'' \<mapsto> [sample_doc], ''drafts'' \<mapsto> []]\<rparr>]\<rparr>) \<and>
   deleteDoc ''drafts'' ''zz'' sample_state =
     Inr (sample_state\<lparr>projects := [sample_project\<lparr>collections := [''notes'' \<mapsto> [sample_doc], ''drafts'' \<mapsto> []]\<rparr>]\<rparr>) \<and>
   sample_state\<lparr>projects := [sample_project\<lparr>collections := [''notes'' \<mapsto> [sample_doc], ''drafts'' \<mapsto> []]\<rparr>]\<rparr>
     \<noteq> sample_state \<and>
   updateDoc ''toString'' ''zz'' [''text'' \<mapsto> JStr ''new''] sample_state = Inl TypeError \<and>
   deleteDoc ''toString'' ''zz'' sample_state = Inl TypeError"
proof (intro conjI)
  have n: "''drafts'' \<notin> set objectPrototypeNames"
    by (simp add: objectPrototypeNames_def)
  show "project sample_state = Some sample_project"
    by (rule sample_project_active)
  show "dom (collections sample_project) = {''notes''}"
    by (simp add: sample_project_def)
  show "getDocs ''drafts'' sample_state = Inr (Docs [])"
    by (simp add: getDocs_def sample_project_active readCollection_def n) (simp add: sample_project_def)
  show "updateDoc ''drafts'' ''zz'' [''text'' \<mapsto> JStr ''new''] sample_state =
     Inr (sample_state\<lparr>projects := [sample_project\<lparr>collections := [''notes'' \<mapsto> [sample_doc], ''drafts'' \<mapsto> []]\<rparr>]\<rparr>)"
    by (simp add: updateDoc_returns [OF n] patchProject_def sample_project_active)
       (simp add: sample_state_def sample_project_def)
  show "deleteDoc ''drafts'' ''zz'' sample_state =
     Inr (sample_state\<lparr>projects := [sample_project\<lparr>collections := [''notes'' \<mapsto> [sample_doc], ''drafts'' \<mapsto> []]\<rparr>]\<rparr>)"
    by (simp add: deleteDoc_returns [OF n] patchProject_def sample_project_active)
       (simp add: sample_state_def sample_project_def)
  have "[''notes'' \<mapsto> [sample_doc], ''drafts'' \<mapsto> []] ''drafts'' \<noteq> [''notes'' \<mapsto> [sample_doc]] ''drafts''"
    by simp
  then have "[''notes'' \<mapsto> [sample_doc], ''drafts'' \<mapsto> []] \<noteq> [''notes'' \<mapsto> [sample_doc]]"
    by metis
  then show "sample_state\<lparr>projects := [sample_project\<lparr>collections := [''notes'' \<mapsto> [sample_doc], ''drafts'' \<mapsto> []]\<rparr>]\<rparr>
     \<noteq> sample_state"
    by (simp add: sample_state_def sample_project_def)
  show "updateDoc ''toString'' ''zz'' [''text'' \<mapsto> JStr ''new''] sample_state = Inl TypeError"
    by (simp add: updateDoc_def patchProjectE_def sample_inherited)
  show "deleteDoc ''toString'' ''zz'' sample_state = Inl TypeError"
    by (simp add: deleteDoc_def patchProjectE_def sample_inherited)
qed

text \<open>
  C5, amended. Let \<open>name\<close> be no name of a property that every object inherits, and
  let no document of the collection \<open>name\<close> have the id \<open>i\<close>. Then \<open>updateDoc\<close> and
  \<open>deleteDoc\<close> return without an error, and every collection is afterwards as \<open>getDocs\<close>
  returned it before. The state is the one before but for the list of workspaces; there
  every workspace with another id than the active one is as before, and in the active
  workspace the entry of \<open>name\<close> in the collection map is written with the documents it
  had. So the active workspace is unchanged when the collection exists, and has the new
  empty collection \<open>name\<close> when it does not. When the collection exists and the ids of
  the workspaces are pairwise different, the whole state is unchanged.
\<close>

theorem unknown_id_noop:
  assumes "name \<notin> set objectPrototypeNames" and "getDocs name s = Inr (Docs ds)"
    and "\<forall>d\<in>set ds. d ''id'' \<noteq> Some (JStr i)"
  shows "\<exists>pr. project s = Some pr \<and>
     (\<forall>op\<in>{updateDoc name i patch, deleteDoc name i}. \<exists>s'. op s = Inr s' \<and>
        s' = s\<lparr>projects := projects s'\<rparr> \<and>
        length (projects s') = length (projects s) \<and>
        (\<forall>k<length (projects s). p_id (projects s ! k) \<noteq> p_id pr \<longrightarrow> projects s' ! k = projects s ! k) \<and>
        project s' = Some (pr\<lparr>collections := (collections pr)(name \<mapsto> ds)\<rparr>) \<and>
        (name \<in> dom (collections pr) \<longrightarrow> project s' = Some pr) \<and>
        (name \<in> dom (collections pr) \<and> distinct (map p_id (projects s)) \<longrightarrow> s' = s) \<and>
        (\<forall>n. getDocs n s' = getDocs n s))"
proof -
  from getDocs_own [OF assms(1,2)] obtain pr where pr: "project s = Some pr"
    and ds: "(case collections pr name of None \<Rightarrow> [] | Some ds \<Rightarrow> ds) = ds"
    by blast
  have m: "map (\<lambda>d. if d ''id'' = Some (JStr i) then d ++ patch else d) ds = ds"
    using assms(3) by (rule map_unchanged)
  have f: "filter (\<lambda>d. d ''id'' \<noteq> Some (JStr i)) ds = ds"
    using assms(3) by (rule filter_unchanged)
  define cbu :: "Project \<Rightarrow> Project" where "cbu = (\<lambda>p. p\<lparr>collections := (collections p)
        (name \<mapsto> map (\<lambda>d. if d ''id'' = Some (JStr i) then d ++ patch else d)
                    (case collections p name of None \<Rightarrow> [] | Some ds \<Rightarrow> ds))\<rparr>)"
  define cbd :: "Project \<Rightarrow> Project" where "cbd = (\<lambda>p. p\<lparr>collections := (collections p)
        (name \<mapsto> filter (\<lambda>d. d ''id'' \<noteq> Some (JStr i))
                    (case collections p name of None \<Rightarrow> [] | Some ds \<Rightarrow> ds))\<rparr>)"
  have u: "updateDoc name i patch s = Inr (patchProject cbu s)"
    unfolding cbu_def using assms(1) by (rule updateDoc_returns)
  have d: "deleteDoc name i s = Inr (patchProject cbd s)"
    unfolding cbd_def using assms(1) by (rule deleteDoc_returns)
  have idu: "p_id (cbu p) = p_id p" for p
    by (simp add: cbu_def)
  have idd: "p_id (cbd p) = p_id p" for p
    by (simp add: cbd_def)
  have cu: "cbu pr = pr\<lparr>collections := (collections pr)(name \<mapsto> ds)\<rparr>"
    by (simp add: cbu_def ds m)
  have cd: "cbd pr = pr\<lparr>collections := (collections pr)(name \<mapsto> ds)\<rparr>"
    by (simp add: cbd_def ds f)
  note ru = collection_rewritten [OF pr idu cu assms(2) refl]
  note rd = collection_rewritten [OF pr idd cd assms(2) refl]
  have "\<exists>s'. op s = Inr s' \<and>
        s' = s\<lparr>projects := projects s'\<rparr> \<and>
        length (projects s') = length (projects s) \<and>
        (\<forall>k<length (projects s). p_id (projects s ! k) \<noteq> p_id pr \<longrightarrow> projects s' ! k = projects s ! k) \<and>
        project s' = Some (pr\<lparr>collections := (collections pr)(name \<mapsto> ds)\<rparr>) \<and>
        (name \<in> dom (collections pr) \<longrightarrow> project s' = Some pr) \<and>
        (name \<in> dom (collections pr) \<and> distinct (map p_id (projects s)) \<longrightarrow> s' = s) \<and>
        (\<forall>n. getDocs n s' = getDocs n s)"
    if "op \<in> {updateDoc name i patch, deleteDoc name i}" for op
  proof -
    from that consider "op = updateDoc name i patch" | "op = deleteDoc name i"
      by blast
    then show ?thesis
    proof cases
      case 1
      show ?thesis
        unfolding 1 by (intro exI [of _ "patchProject cbu s"] conjI) (rule u ru)+
    next
      case 2
      show ?thesis
        unfolding 2 by (intro exI [of _ "patchProject cbd s"] conjI) (rule d rd)+
    qed
  qed
  with pr show ?thesis by blast
qed

theorem unknown_id_noop_witness:
  "''notes'' \<notin> set objectPrototypeNames \<and>
   getDocs ''notes'' sample_state = Inr (Docs [sample_doc]) \<and>
   sample_doc ''id'' \<noteq> Some (JStr ''zz'') \<and>
   ''notes'' \<in> dom (collections sample_project) \<and>
   distinct (map p_id (projects sample_state)) \<and>
   updateDoc ''notes'' ''zz'' [''text'' \<mapsto> JStr ''new''] sample_state = Inr sample_state \<and>
   deleteDoc ''notes'' ''zz'' sample_state = Inr sample_state"
proof -
  have g: "getDocs ''notes'' sample_state = Inr (Docs [sample_doc])"
    by (rule sample_notes)
  have i: "sample_doc ''id'' \<noteq> Some (JStr ''zz'')"
    by (simp add: sample_doc_def)
  then have a: "\<forall>d\<in>set [sample_doc]. d ''id'' \<noteq> Some (JStr ''zz'')"
    by simp
  have o: "''notes'' \<in> dom (collections sample_project)"
    by (simp add: sample_project_def)
  have di: "distinct (map p_id (projects sample_state))"
    by (simp add: sample_state_def)
  from unknown_id_noop [OF notes_own g a, of "[''text'' \<mapsto> JStr ''new'']"]
  obtain pr where pr: "project sample_state = Some pr"
    and all: "\<forall>op\<in>{updateDoc ''notes'' ''zz'' [''text'' \<mapsto> JStr ''new''], deleteDoc ''notes'' ''zz''}.
        \<exists>s'. op sample_state = Inr s' \<and>
        s' = sample_state\<lparr>projects := projects s'\<rparr> \<and>
        length (projects s') = length (projects sample_state) \<and>
        (\<forall>k<length (projects sample_state). p_id (projects sample_state ! k) \<noteq> p_id pr \<longrightarrow>
            projects s' ! k = projects sample_state ! k) \<and>
        project s' = Some (pr\<lparr>collections := (collections pr)(''notes'' \<mapsto> [sample_doc])\<rparr>) \<and>
        (''notes'' \<in> dom (collections pr) \<longrightarrow> project s' = Some pr) \<and>
        (''notes'' \<in> dom (collections pr) \<and> distinct (map p_id (projects sample_state)) \<longrightarrow> s' = sample_state) \<and>
        (\<forall>n. getDocs n s' = getDocs n sample_state)"
    by blast
  from pr have pr_eq: "pr = sample_project"
    by (simp add: sample_project_active)
  from all obtain s1 where s1: "updateDoc ''notes'' ''zz'' [''text'' \<mapsto> JStr ''new''] sample_state = Inr s1"
    and n1: "''notes'' \<in> dom (collections pr) \<and> distinct (map p_id (projects sample_state)) \<longrightarrow> s1 = sample_state"
    by blast
  from all obtain s2 where s2: "deleteDoc ''notes'' ''zz'' sample_state = Inr s2"
    and n2: "''notes'' \<in> dom (collections pr) \<and> distinct (map p_id (projects sample_state)) \<longrightarrow> s2 = sample_state"
    by blast
  from n1 o di pr_eq have "s1 = sample_state" by blast
  with s1 have u: "updateDoc ''notes'' ''zz'' [''text'' \<mapsto> JStr ''new''] sample_state = Inr sample_state"
    by simp
  from n2 o di pr_eq have "s2 = sample_state" by blast
  with s2 have d: "deleteDoc ''notes'' ''zz'' sample_state = Inr sample_state"
    by simp
  show ?thesis
    by (intro conjI) (rule notes_own g i o di u d)+
qed




text \<open>
  C10. A caller's record with the property \<open>name\<close> set to the number 42: the document
  that \<open>addDoc\<close> appends has the number 42 as its \<open>name\<close>, not the string the code
  computes from it, because the caller's properties are written after it.
\<close>

theorem addDoc_name_not_string:
  "(\<exists>s'. snd (addDoc ''notes'' [''name'' \<mapsto> JNum 42] ''m7p0c4zt'' sample_state) = Inr s' \<and>
      getDocs ''notes'' s' = Inr (Docs [sample_doc, newDoc ''m7p0c4zt'' [''name'' \<mapsto> JNum 42]])) \<and>
   newDoc ''m7p0c4zt'' [''name'' \<mapsto> JNum 42] ''name'' = Some (JNum 42) \<and>
   ToString (nullish_or ([''name'' \<mapsto> JNum 42] ''name'') (JStr ''doc'')) = ''42''"
proof (intro conjI)
  show "\<exists>s'. snd (addDoc ''notes'' [''name'' \<mapsto> JNum 42] ''m7p0c4zt'' sample_state) = Inr s' \<and>
      getDocs ''notes'' s' = Inr (Docs [sample_doc, newDoc ''m7p0c4zt'' [''name'' \<mapsto> JNum 42]])"
    by (simp add: sample_addDoc sample_added_notes)
  show "newDoc ''m7p0c4zt'' [''name'' \<mapsto> JNum 42] ''name'' = Some (JNum 42)"
    by (simp add: newDoc_def)
  show "ToString (nullish_or ([''name'' \<mapsto> JNum 42] ''name'') (JStr ''doc'')) = ''42''"
    by code_simp
qed
section \<open>Facts about the terminal\<close>

lemma patchProject_other_fields:
  "logs (patchProject cb s) = logs s"
  "termInput (patchProject cb s) = termInput s"
  "activeFileId (patchProject cb s) = activeFileId s"
  "activeProjectId (patchProject cb s) = activeProjectId s"
  "openTabs (patchProject cb s) = openTabs s"
  "auth (patchProject cb s) = auth s"
  by (simp_all add: patchProject_def split: option.split)

lemma project_logs_update:
  "project (s\<lparr>logs := l\<rparr>) = project s"
  "project (s\<lparr>termInput := t\<rparr>) = project s"
  by (simp_all add: project_def split: option.split)

lemma activeFile_eq:
  "project s' = project s \<Longrightarrow> activeFileId s' = activeFileId s \<Longrightarrow> activeFile s' = activeFile s"
  by (simp add: activeFile_def split: option.split)

lemma patchProject_logs_update:
  "patchProject cb (s\<lparr>logs := l\<rparr>) = (patchProject cb s)\<lparr>logs := l\<rparr>"
  by (simp add: patchProject_def project_logs_update split: option.split)

lemma activeFile_after_edit:
  assumes "project s = Some pr" and "activeFile s = Some af"
  shows "activeFile (patchProject (\<lambda>p. p\<lparr>files := map (\<lambda>f. if f_id f = f_id af then f\<lparr>content := g f\<rparr> else f) (files p)\<rparr>) s)
           = Some (af\<lparr>content := g af\<rparr>)"
proof -
  define h where "h = (\<lambda>f. if f_id f = f_id af then f\<lparr>content := g f\<rparr> else f)"
  define cb :: "Project \<Rightarrow> Project" where "cb = (\<lambda>p. p\<lparr>files := map h (files p)\<rparr>)"
  have cbid: "p_id (cb p) = p_id p" for p
    by (simp add: cb_def)
  have p': "project (patchProject cb s) = Some (cb pr)"
    by (simp only: project_patchProject [of cb, OF cbid] assms(1) option.map)
  have hP: "(f_id (h f) = a \<and> kind (h f) = File) = (f_id f = a \<and> kind f = File)" for f a
    by (simp add: h_def)
  from assms have fnd: "find (\<lambda>f. f_id f = activeFileId s \<and> kind f = File) (files pr) = Some af"
    by (simp add: activeFile_def)
  have "activeFile (patchProject cb s) =
          find (\<lambda>f. f_id f = activeFileId s \<and> kind f = File) (map h (files pr))"
  proof -
    have "files (cb pr) = map h (files pr)"
      by (simp add: cb_def)
    then show ?thesis
      by (simp add: activeFile_def p' patchProject_other_fields)
  qed
  also have "\<dots> = map_option h (find (\<lambda>f. f_id f = activeFileId s \<and> kind f = File) (files pr))"
    by (rule find_map_preserving) (rule hP)
  also have "\<dots> = Some (af\<lparr>content := g af\<rparr>)"
    by (simp add: fnd h_def)
  finally show ?thesis
    by (simp only: cb_def h_def)
qed

text \<open>
  C4, as stated, fails on the code: an input that is empty once trimmed gets no response
  at all, neither the echo nor \<open>Unknown command\<close>, and the input box keeps its content.
\<close>

theorem runTerminal_counterexample:
  "runTerminal (\<lambda>k. ''k3x9q2ab'') (sample_state\<lparr>termInput := ''  ''\<rparr>) =
     Inr (sample_state\<lparr>termInput := ''  ''\<rparr>) \<and>
   logs (sample_state\<lparr>termInput := ''  ''\<rparr>) = []"
proof (intro conjI)
  have "trim ''  '' = ''''"
    by code_simp
  then show "runTerminal (\<lambda>k. ''k3x9q2ab'') (sample_state\<lparr>termInput := ''  ''\<rparr>) =
     Inr (sample_state\<lparr>termInput := ''  ''\<rparr>)"
    by (simp add: runTerminal_def)
  show "logs (sample_state\<lparr>termInput := ''  ''\<rparr>) = []"
    by (simp add: sample_state_def)
qed

text \<open>
  C4, amended. The input is trimmed first. An input that is empty once trimmed gets no
  response: the state stays as it is. An input that is not empty once trimmed gets the
  response \<open>Unknown command\<close> (the log is extended by the trimmed input and the entry
  \<open>Unknown command\<close>, and the input box is cleared) exactly when the trimmed input is
  none of \<open>!run\<close>, \<open>!fix code\<close>, \<open>!list\<close>, \<open>!clear\<close>, \<open>!help\<close>. \<open>!fix code\<close> with
  an active file replaces every occurrence of \<open>var \<close> by \<open>const \<close> in the content of
  the files that have the id of the active file, so that the active file afterwards has
  the replaced content; \<open>var x = 1\<close> becomes \<open>const x = 1\<close>.
\<close>

theorem runTerminal_commands:
  "(trim (termInput s) = '''' \<longrightarrow> runTerminal u s = Inr s) \<and>
   (trim (termInput s) \<noteq> '''' \<longrightarrow>
      (runTerminal u s =
         Inr (s\<lparr>logs := logs s @ [\<lparr>e_id = u 0, level = Info, message = ''> '' @ trim (termInput s)\<rparr>,
                                   \<lparr>e_id = u 1, level = Error, message = ''Unknown command''\<rparr>],
                termInput := ''''\<rparr>))
       = (trim (termInput s) \<notin> {''!run'', ''!fix code'', ''!list'', ''!clear'', ''!help''})) \<and>
   (trim (termInput s) = ''!fix code'' \<longrightarrow>
      (\<forall>pr af. project s = Some pr \<and> activeFile s = Some af \<longrightarrow>
         (\<exists>s'. runTerminal u s = Inr s' \<and>
            project s' = Some (pr\<lparr>files := map (\<lambda>f. if f_id f = f_id af
                 then f\<lparr>content := replaceAll (content f) ''var '' ''const ''\<rparr> else f) (files pr)\<rparr>) \<and>
            activeFile s' = Some (af\<lparr>content := replaceAll (content af) ''var '' ''const ''\<rparr>) \<and>
            logs s' = logs s @ [\<lparr>e_id = u 0, level = Info, message = ''> !fix code''\<rparr>,
                                \<lparr>e_id = u 1, level = Success, message = ''Applied quick fix: var -> const''\<rparr>] \<and>
            termInput s' = ''''))) \<and>
   replaceAll ''var x = 1'' ''var '' ''const '' = ''const x = 1''"
proof (intro conjI impI allI)
  show "runTerminal u s = Inr s" if "trim (termInput s) = ''''"
    using that by (simp add: runTerminal_def)
next
  assume ne: "trim (termInput s) \<noteq> ''''"
  define cmd where "cmd = trim (termInput s)"
  define unknown where "unknown =
     s\<lparr>logs := logs s @ [\<lparr>e_id = u 0, level = Info, message = ''> '' @ cmd\<rparr>,
                          \<lparr>e_id = u 1, level = Error, message = ''Unknown command''\<rparr>],
       termInput := ''''\<rparr>"
  have lg: "logs unknown = logs s @ [\<lparr>e_id = u 0, level = Info, message = ''> '' @ cmd\<rparr>,
                          \<lparr>e_id = u 1, level = Error, message = ''Unknown command''\<rparr>]"
    by (simp add: unknown_def)
  have "(runTerminal u s = Inr unknown) = (cmd \<notin> {''!run'', ''!fix code'', ''!list'', ''!clear'', ''!help''})"
  proof
    assume r: "runTerminal u s = Inr unknown"
    show "cmd \<notin> {''!run'', ''!fix code'', ''!list'', ''!clear'', ''!help''}"
    proof
      assume "cmd \<in> {''!run'', ''!fix code'', ''!list'', ''!clear'', ''!help''}"
      then consider "cmd = ''!run''" | "cmd = ''!fix code''" | "cmd = ''!list''" | "cmd = ''!clear''" | "cmd = ''!help''"
        by blast
      then have "\<forall>s'. runTerminal u s = Inr s' \<longrightarrow> logs s' \<noteq> logs unknown"
      proof cases
        case 1
        then show ?thesis
          by (auto simp add: runTerminal_def cmd_def [symmetric] addLog_def lg Let_def)
      next
        case 2
        then show ?thesis
          by (cases "activeFile s")
             (auto simp add: runTerminal_def cmd_def [symmetric] addLog_def lg patchProject_other_fields Let_def)
      next
        case 3
        then show ?thesis
          by (cases "project s")
             (auto simp add: runTerminal_def cmd_def [symmetric] addLog_def lg Let_def)
      next
        case 4
        then show ?thesis
          by (auto simp add: runTerminal_def cmd_def [symmetric] addLog_def lg Let_def)
      next
        case 5
        then show ?thesis
          by (auto simp add: runTerminal_def cmd_def [symmetric] addLog_def lg Let_def)
      qed
      with r show False by blast
    qed
  next
    assume "cmd \<notin> {''!run'', ''!fix code'', ''!list'', ''!clear'', ''!help''}"
    with ne show "runTerminal u s = Inr unknown"
      by (simp add: runTerminal_def cmd_def [symmetric] addLog_def unknown_def Let_def)
  qed
  then show "(runTerminal u s =
         Inr (s\<lparr>logs := logs s @ [\<lparr>e_id = u 0, level = Info, message = ''> '' @ trim (termInput s)\<rparr>,
                                   \<lparr>e_id = u 1, level = Error, message = ''Unknown command''\<rparr>],
                termInput := ''''\<rparr>))
       = (trim (termInput s) \<notin> {''!run'', ''!fix code'', ''!list'', ''!clear'', ''!help''})"
    by (simp only: unknown_def cmd_def)
next
  fix pr af
  assume cmd: "trim (termInput s) = ''!fix code''"
    and pa: "project s = Some pr \<and> activeFile s = Some af"
  define cb :: "Project \<Rightarrow> Project" where "cb = (\<lambda>p. p\<lparr>files := map (\<lambda>f. if f_id f = f_id af
                 then f\<lparr>content := replaceAll (content f) ''var '' ''const ''\<rparr> else f) (files p)\<rparr>)"
  define s' where "s' = (patchProject cb s)
      \<lparr>logs := logs s @ [\<lparr>e_id = u 0, level = Info, message = ''> !fix code''\<rparr>,
                          \<lparr>e_id = u 1, level = Success, message = ''Applied quick fix: var -> const''\<rparr>],
       termInput := ''''\<rparr>"
  have cbid: "p_id (cb p) = p_id p" for p
    by (simp add: cb_def)
  have r: "runTerminal u s = Inr s'"
    using cmd pa
    by (simp add: runTerminal_def addLog_def s'_def cb_def patchProject_logs_update patchProject_other_fields Let_def)
  have p'': "project (patchProject cb s) = Some (cb pr)"
    using pa by (simp only: project_patchProject [of cb, OF cbid] option.map)
  have p': "project s' = Some (cb pr)"
    by (simp add: s'_def project_logs_update p'')
  have "activeFile s' = activeFile (patchProject cb s)"
  proof (rule activeFile_eq)
    show "project s' = project (patchProject cb s)"
      by (simp only: p' p'')
    show "activeFileId s' = activeFileId (patchProject cb s)"
      by (simp add: s'_def)
  qed
  also have "\<dots> = Some (af\<lparr>content := replaceAll (content af) ''var '' ''const ''\<rparr>)"
    unfolding cb_def using pa by (intro activeFile_after_edit) simp_all
  finally have a': "activeFile s' = Some (af\<lparr>content := replaceAll (content af) ''var '' ''const ''\<rparr>)" .
  show "\<exists>s'. runTerminal u s = Inr s' \<and>
            project s' = Some (pr\<lparr>files := map (\<lambda>f. if f_id f = f_id af
                 then f\<lparr>content := replaceAll (content f) ''var '' ''const ''\<rparr> else f) (files pr)\<rparr>) \<and>
            activeFile s' = Some (af\<lparr>content := replaceAll (content af) ''var '' ''const ''\<rparr>) \<and>
            logs s' = logs s @ [\<lparr>e_id = u 0, level = Info, message = ''> !fix code''\<rparr>,
                                \<lparr>e_id = u 1, level = Success, message = ''Applied quick fix: var -> const''\<rparr>] \<and>
            termInput s' = ''''"
  proof (intro exI conjI)
    show "runTerminal u s = Inr s'" by (rule r)
    show "project s' = Some (pr\<lparr>files := map (\<lambda>f. if f_id f = f_id af
                 then f\<lparr>content := replaceAll (content f) ''var '' ''const ''\<rparr> else f) (files pr)\<rparr>)"
      using p' by (simp add: cb_def)
    show "activeFile s' = Some (af\<lparr>content := replaceAll (content af) ''var '' ''const ''\<rparr>)" by (rule a')
    show "logs s' = logs s @ [\<lparr>e_id = u 0, level = Info, message = ''> !fix code''\<rparr>,
                                \<lparr>e_id = u 1, level = Success, message = ''Applied quick fix: var -> const''\<rparr>]"
      by (simp add: s'_def)
    show "termInput s' = ''''" by (simp add: s'_def)
  qed
next
  show "replaceAll ''var x = 1'' ''var '' ''const '' = ''const x = 1''"
    by simp
qed

theorem runTerminal_commands_witness:
  "trim (termInput (sample_state\<lparr>termInput := ''  ''\<rparr>)) = '''' \<and>
   runTerminal sample_uid (sample_state\<lparr>termInput := ''  ''\<rparr>) = Inr (sample_state\<lparr>termInput := ''  ''\<rparr>) \<and>
   trim (termInput (sample_state\<lparr>termInput := '' make ''\<rparr>)) \<noteq> '''' \<and>
   trim (termInput (sample_state\<lparr>termInput := '' make ''\<rparr>)) \<notin> {''!run'', ''!fix code'', ''!list'', ''!clear'', ''!help''} \<and>
   runTerminal sample_uid (sample_state\<lparr>termInput := '' make ''\<rparr>) =
     Inr (sample_state\<lparr>logs := [\<lparr>e_id = sample_uid 0, level = Info, message = ''> make''\<rparr>,
                                  \<lparr>e_id = sample_uid 1, level = Error, message = ''Unknown command''\<rparr>],
                        termInput := ''''\<rparr>) \<and>
   trim (termInput sample_state) = ''!fix code'' \<and>
   project sample_state = Some sample_project \<and>
   activeFile sample_state =
     Some \<lparr>f_id = ''f2'', f_name = ''a.js'', kind = File, content = ''var x = 1'', parentId = Some ''f1''\<rparr> \<and>
   (\<exists>s'. runTerminal sample_uid sample_state = Inr s' \<and>
      activeFile s' =
        Some \<lparr>f_id = ''f2'', f_name = ''a.js'', kind = File, content = ''const x = 1'', parentId = Some ''f1''\<rparr>)"
proof -
  have t1: "trim (termInput (sample_state\<lparr>termInput := ''  ''\<rparr>)) = ''''"
  proof -
    have "trim ''  '' = ''''" by code_simp
    then show ?thesis by simp
  qed
  have tm: "trim '' make '' = ''make''" by code_simp
  have t2: "trim (termInput (sample_state\<lparr>termInput := '' make ''\<rparr>)) = ''make''"
    using tm by simp
  have t3: "trim (termInput sample_state) = ''!fix code''"
  proof -
    have "trim ''!fix code'' = ''!fix code''" by code_simp
    then show ?thesis by (simp add: sample_state_def)
  qed
  have p: "project sample_state = Some sample_project"
    by (rule sample_project_active)
  have a: "activeFile sample_state =
     Some \<lparr>f_id = ''f2'', f_name = ''a.js'', kind = File, content = ''var x = 1'', parentId = Some ''f1''\<rparr>"
    by (simp add: activeFile_def p) (simp add: sample_project_def sample_files_def sample_state_def)
  have r1: "runTerminal sample_uid (sample_state\<lparr>termInput := ''  ''\<rparr>) = Inr (sample_state\<lparr>termInput := ''  ''\<rparr>)"
    using runTerminal_commands [of "sample_state\<lparr>termInput := ''  ''\<rparr>" sample_uid, THEN conjunct1] t1
    by blast
  have ne: "trim (termInput (sample_state\<lparr>termInput := '' make ''\<rparr>)) \<noteq> ''''"
    by (simp only: t2) simp
  have nt: "trim (termInput (sample_state\<lparr>termInput := '' make ''\<rparr>)) \<notin> {''!run'', ''!fix code'', ''!list'', ''!clear'', ''!help''}"
    by (simp only: t2) simp
  from runTerminal_commands [of "sample_state\<lparr>termInput := '' make ''\<rparr>" sample_uid, THEN conjunct2, THEN conjunct1] ne nt
  have "runTerminal sample_uid (sample_state\<lparr>termInput := '' make ''\<rparr>) =
         Inr (sample_state\<lparr>termInput := '' make ''\<rparr>
           \<lparr>logs := logs (sample_state\<lparr>termInput := '' make ''\<rparr>) @
               [\<lparr>e_id = sample_uid 0, level = Info, message = ''> '' @ trim (termInput (sample_state\<lparr>termInput := '' make ''\<rparr>))\<rparr>,
                \<lparr>e_id = sample_uid 1, level = Error, message = ''Unknown command''\<rparr>],
             termInput := ''''\<rparr>)"
    by blast
  then have r2: "runTerminal sample_uid (sample_state\<lparr>termInput := '' make ''\<rparr>) =
     Inr (sample_state\<lparr>logs := [\<lparr>e_id = sample_uid 0, level = Info, message = ''> make''\<rparr>,
                                  \<lparr>e_id = sample_uid 1, level = Error, message = ''Unknown command''\<rparr>],
                        termInput := ''''\<rparr>)"
    by (simp add: tm sample_state_def)
  from runTerminal_commands [of sample_state sample_uid, THEN conjunct2, THEN conjunct2, THEN conjunct1] t3 p a
  obtain s' where s': "runTerminal sample_uid sample_state = Inr s'"
    and af: "activeFile s' = Some (\<lparr>f_id = ''f2'', f_name = ''a.js'', kind = File, content = ''var x = 1'', parentId = Some ''f1''\<rparr>
               \<lparr>content := replaceAll (content \<lparr>f_id = ''f2'', f_name = ''a.js'', kind = File, content = ''var x = 1'', parentId = Some ''f1''\<rparr>) ''var '' ''const ''\<rparr>)"
    by blast
  from af have "activeFile s' =
        Some \<lparr>f_id = ''f2'', f_name = ''a.js'', kind = File, content = ''const x = 1'', parentId = Some ''f1''\<rparr>"
    by simp
  with s' have r3: "\<exists>s'. runTerminal sample_uid sample_state = Inr s' \<and>
      activeFile s' =
        Some \<lparr>f_id = ''f2'', f_name = ''a.js'', kind = File, content = ''const x = 1'', parentId = Some ''f1''\<rparr>"
    by blast
  show ?thesis
    by (intro conjI) (rule t1 r1 ne nt r2 t3 p a r3)+
qed

section \<open>Facts about the synchronisation channel\<close>

text \<open>
  C7, as stated, fails on the code: the object that is posted has no property \<open>kind\<close>
  and no property \<open>workspaceId\<close>; the tag is under \<open>type\<close> and the workspace id under
  \<open>projectId\<close>.
\<close>

theorem onChange_counterexample:
  "(\<exists>s' m. onChange ''let x = 1'' sample_state = (s', Some (''codeflow-collab'', m)) \<and>
      m ''kind'' = None \<and> m ''workspaceId'' = None \<and>
      m ''type'' = Some (JStr ''sync'') \<and> m ''projectId'' = Some (JStr ''p1''))"
proof -
  have a: "activeFile sample_state =
     Some \<lparr>f_id = ''f2'', f_name = ''a.js'', kind = File, content = ''var x = 1'', parentId = Some ''f1''\<rparr>"
    by (simp add: activeFile_def sample_project_active) (simp add: sample_project_def sample_files_def sample_state_def)
  have u: "auth sample_state = User"
    by (simp add: sample_state_def)
  define m where "m = [''type'' \<mapsto> JStr ''sync'', ''projectId'' \<mapsto> JStr ''p1'',
      ''fileId'' \<mapsto> JStr ''f2'', ''content'' \<mapsto> JStr ''let x = 1'', ''actor'' \<mapsto> JStr ''remote'']"
  have i: "p_id sample_project = ''p1''"
    by (simp add: sample_project_def)
  have "snd (onChange ''let x = 1'' sample_state) = Some (''codeflow-collab'', m)"
    by (simp add: onChange_def sample_project_active a u channelName_def i m_def)
  then have "onChange ''let x = 1'' sample_state =
      (fst (onChange ''let x = 1'' sample_state), Some (''codeflow-collab'', m))"
    by (simp add: prod_eq_iff)
  moreover have "m ''kind'' = None \<and> m ''workspaceId'' = None \<and>
      m ''type'' = Some (JStr ''sync'') \<and> m ''projectId'' = Some (JStr ''p1'')"
    by (simp add: m_def)
  ultimately show ?thesis
    by blast
qed

text \<open>
  C7, amended. An edit of the active file by a logged-in user posts, on the channel
  \<open>codeflow-collab\<close>, an object with exactly the properties \<open>type\<close>, \<open>projectId\<close>,
  \<open>fileId\<close>, \<open>content\<close> and \<open>actor\<close>: the tag \<open>sync\<close>, the id of the active project, the
  id of the active file, the new content and the word \<open>remote\<close>. The active file has the
  new content afterwards.
\<close>

theorem onChange_publishes:
  assumes "auth s = User" and "project s = Some pr" and "activeFile s = Some af"
  shows "\<exists>s' m. onChange v s = (s', Some (''codeflow-collab'', m)) \<and>
           dom m = {''type'', ''projectId'', ''fileId'', ''content'', ''actor''} \<and>
           m ''type'' = Some (JStr ''sync'') \<and> m ''projectId'' = Some (JStr (p_id pr)) \<and>
           m ''fileId'' = Some (JStr (f_id af)) \<and> m ''content'' = Some (JStr v) \<and>
           m ''actor'' = Some (JStr ''remote'') \<and>
           activeFile s' = Some (af\<lparr>content := v\<rparr>)"
proof -
  define m where "m = [''type'' \<mapsto> JStr ''sync'', ''projectId'' \<mapsto> JStr (p_id pr),
      ''fileId'' \<mapsto> JStr (f_id af), ''content'' \<mapsto> JStr v, ''actor'' \<mapsto> JStr ''remote'']"
  define s' where "s' = patchProject (\<lambda>p. p\<lparr>files := map (\<lambda>f. if f_id f = f_id af then f\<lparr>content := v\<rparr> else f) (files p)\<rparr>) s"
  have r: "onChange v s = (s', Some (''codeflow-collab'', m))"
    by (simp add: onChange_def assms channelName_def m_def s'_def)
  have a': "activeFile s' = Some (af\<lparr>content := v\<rparr>)"
    unfolding s'_def by (rule activeFile_after_edit [OF assms(2,3)])
  have d: "dom m = {''type'', ''projectId'', ''fileId'', ''content'', ''actor''}"
    by (auto simp: m_def)
  show ?thesis
  proof (intro exI conjI)
    show "onChange v s = (s', Some (''codeflow-collab'', m))" by (rule r)
    show "dom m = {''type'', ''projectId'', ''fileId'', ''content'', ''actor''}" by (rule d)
    show "activeFile s' = Some (af\<lparr>content := v\<rparr>)" by (rule a')
  qed (simp_all add: m_def)
qed

theorem onChange_publishes_witness:
  "auth sample_state = User \<and> project sample_state = Some sample_project \<and>
   activeFile sample_state =
     Some \<lparr>f_id = ''f2'', f_name = ''a.js'', kind = File, content = ''var x = 1'', parentId = Some ''f1''\<rparr> \<and>
   (\<exists>s' m. onChange ''let x = 1'' sample_state = (s', Some (''codeflow-collab'', m)) \<and>
      dom m = {''type'', ''projectId'', ''fileId'', ''content'', ''actor''} \<and>
      m ''type'' = Some (JStr ''sync'') \<and> m ''projectId'' = Some (JStr ''p1'') \<and>
      m ''fileId'' = Some (JStr ''f2'') \<and> m ''content'' = Some (JStr ''let x = 1'') \<and>
      m ''actor'' = Some (JStr ''remote'') \<and>
      activeFile s' =
        Some \<lparr>f_id = ''f2'', f_name = ''a.js'', kind = File, content = ''let x = 1'', parentId = Some ''f1''\<rparr>)"
proof -
  have u: "auth sample_state = User"
    by (simp add: sample_state_def)
  have p: "project sample_state = Some sample_project"
    by (rule sample_project_active)
  have a: "activeFile sample_state =
     Some \<lparr>f_id = ''f2'', f_name = ''a.js'', kind = File, content = ''var x = 1'', parentId = Some ''f1''\<rparr>"
    by (simp add: activeFile_def p) (simp add: sample_project_def sample_files_def sample_state_def)
  have i: "p_id sample_project = ''p1''"
    by (simp add: sample_project_def)
  from onChange_publishes [OF u p a, of "''let x = 1''"]
  have "\<exists>s' m. onChange ''let x = 1'' sample_state = (s', Some (''codeflow-collab'', m)) \<and>
      dom m = {''type'', ''projectId'', ''fileId'', ''content'', ''actor''} \<and>
      m ''type'' = Some (JStr ''sync'') \<and> m ''projectId'' = Some (JStr ''p1'') \<and>
      m ''fileId'' = Some (JStr ''f2'') \<and> m ''content'' = Some (JStr ''let x = 1'') \<and>
      m ''actor'' = Some (JStr ''remote'') \<and>
      activeFile s' =
        Some \<lparr>f_id = ''f2'', f_name = ''a.js'', kind = File, content = ''let x = 1'', parentId = Some ''f1''\<rparr>"
    by (simp add: i)
  with u p a show ?thesis
    by (intro conjI)
qed

section \<open>Facts about the workspace list\<close>

lemma patchProject_length: "length (projects (patchProject cb s)) = length (projects s)"
  by (simp add: patchProject_def split: option.split)

lemma project_exists: "projects s \<noteq> [] \<Longrightarrow> \<exists>pr. project s = Some pr"
  by (cases "projects s") (simp_all add: project_def split: option.split)

lemma deleteWorkspace_cases:
  assumes "projects s \<noteq> []" and "distinct (map p_id (projects s))"
  obtains "deleteWorkspace s = Inr s"
  | pr r rs where "project s = Some pr" and "filter (\<lambda>p. p_id p \<noteq> p_id pr) (projects s) = r # rs"
      and "deleteWorkspace s = Inr (s\<lparr>projects := r # rs, activeProjectId := p_id r\<rparr>)"
proof (cases "length (projects s) = 1")
  case True
  then have "deleteWorkspace s = Inr s"
    by (simp add: deleteWorkspace_def)
  then show ?thesis by (rule that(1))
next
  case False
  from project_exists [OF assms(1)] obtain pr where pr: "project s = Some pr"
    by blast
  from False assms(1) obtain p q ps where ps: "projects s = p # q # ps"
    by (cases "projects s"; cases "tl (projects s)") auto
  with assms(2) have "p_id p \<noteq> p_id q" by simp
  then have "p_id p \<noteq> p_id pr \<or> p_id q \<noteq> p_id pr" by auto
  then have "filter (\<lambda>x. p_id x \<noteq> p_id pr) (projects s) \<noteq> []"
    by (auto simp: ps)
  then obtain r rs where r: "filter (\<lambda>x. p_id x \<noteq> p_id pr) (projects s) = r # rs"
    by (cases "filter (\<lambda>x. p_id x \<noteq> p_id pr) (projects s)") auto
  with False pr have "deleteWorkspace s = Inr (s\<lparr>projects := r # rs, activeProjectId := p_id r\<rparr>)"
    by (simp add: deleteWorkspace_def)
  with pr r show ?thesis by (rule that(2))
qed

lemma deleteWorkspace_succeeds:
  assumes "projects s \<noteq> []" and "distinct (map p_id (projects s))"
  shows "\<exists>s'. deleteWorkspace s = Inr s' \<and> projects s' \<noteq> []"
  using assms
proof (cases rule: deleteWorkspace_cases)
  case 1
  with assms(1) show ?thesis by simp
next
  case (2 pr r rs)
  then show ?thesis by simp
qed

lemma ids_enumerate:
  "(\<And>j p. p_id (g j p) = p_id p) \<Longrightarrow> map p_id (map (\<lambda>(j, p). g j p) (enumerate n ps)) = map p_id ps"
  by (induction ps arbitrary: n) simp_all

text \<open>
  The list of workspaces stays non-empty and its ids stay pairwise different under every
  operation that brings no id in a second time.
\<close>

lemma step_keeps_workspaces:
  assumes ne: "projects s \<noteq> []" and di: "distinct (map p_id (projects s))" and fr: "freshIds a s"
  shows "projects (stateAfter (step a s)) \<noteq> [] \<and> distinct (map p_id (projects (stateAfter (step a s))))"
proof (cases a)
  case (Patch cb)
  from project_exists [OF ne] obtain pr where pr: "project s = Some pr"
    by blast
  from fr Patch have "map (\<lambda>p. p_id (if p_id p = p_id pr then cb p else p)) (projects s) = map p_id (projects s)"
    by (intro map_cong) auto
  then have "map p_id (projects (patchProject cb s)) = map p_id (projects s)"
    by (simp add: patchProject_def pr o_def)
  with ne di have "projects (patchProject cb s) \<noteq> [] \<and> distinct (map p_id (projects (patchProject cb s)))"
    by (metis map_is_Nil_conv)
  then show ?thesis
    by (simp add: Patch stateAfter_def)
next
  case (CreateWorkspace nm ok u)
  with fr have "u 0 \<notin> set (map p_id (projects s))"
    by simp
  with di show ?thesis
    by (simp add: CreateWorkspace stateAfter_def createWorkspace_def Let_def makeProject_def)
next
  case DeleteWorkspace
  from ne di show ?thesis
  proof (cases rule: deleteWorkspace_cases)
    case 1
    with ne di show ?thesis
      by (simp add: DeleteWorkspace stateAfter_def)
  next
    case (2 pr r rs)
    from di have "distinct (map p_id (filter (\<lambda>p. p_id p \<noteq> p_id pr) (projects s)))"
      by (rule distinct_map_filter)
    then have "distinct (map p_id (r # rs))"
      by (simp only: 2(2))
    with 2(3) show ?thesis
      by (simp add: DeleteWorkspace stateAfter_def)
  qed
next
  case (Startup raw u)
  show ?thesis
  proof (cases raw)
    case None
    with ne di show ?thesis
      by (cases "projects s") (simp_all add: Startup stateAfter_def unwritten_def startup_def)
  next
    case (Some parsed)
    with fr Startup have "distinct (map p_id (ps_projects parsed))"
      by simp
    then show ?thesis
      by (simp add: Startup Some stateAfter_def unwritten_def startup_def)
  qed
next
  case (Receive msg u)
  define h :: "Project \<Rightarrow> Project" where "h = (\<lambda>p. if p_id p \<noteq> m_projectId msg then p
          else p\<lparr>files := map (\<lambda>f. if f_id f = m_fileId msg then f\<lparr>content := m_content msg\<rparr> else f) (files p)\<rparr>)"
  have hid: "p_id (h p) = p_id p" for p
    by (simp add: h_def)
  have ids: "map p_id (map h (projects s)) = map p_id (projects s)"
    by (simp add: o_def hid)
  have "projects (onmessage msg u s) = projects s \<or> projects (onmessage msg u s) = map h (projects s)"
    by (simp add: onmessage_def h_def)
  then have "map p_id (projects (onmessage msg u s)) = map p_id (projects s)"
    using ids by auto
  with ne di have "projects (onmessage msg u s) \<noteq> [] \<and> distinct (map p_id (projects (onmessage msg u s)))"
    by (metis map_is_Nil_conv)
  then show ?thesis
    by (simp add: Receive stateAfter_def)
next
  case (SyncConnected u ul)
  from project_exists [OF ne] obtain pr where pr: "project s = Some pr"
    by blast
  show ?thesis
  proof (cases "connected pr = []")
    case True
    with ne di pr show ?thesis
      by (simp add: SyncConnected stateAfter_def unwritten_def syncConnected_def)
  next
    case False
    define src where "src = map_option f_id (find (\<lambda>x. f_name x = ''src'') (files pr))"
    define sourceFiles where "sourceFiles = filter (\<lambda>f. parentId f = None \<or> (src \<noteq> None \<and> parentId f = src)) (files pr)"
    define g :: "nat \<Rightarrow> Project \<Rightarrow> Project" where "g = (\<lambda>j p. if p_id p \<in> set (connected pr)
                         then p\<lparr>files := files p @ map (\<lambda>(k, f). f\<lparr>f_id := u j k\<rparr>) (enumerate 0 sourceFiles)\<rparr>
                         else p)"
    have gid: "p_id (g j p) = p_id p" for j p
      by (simp add: g_def)
    have st: "stateAfter (step a s) =
        addLog Success ''Synced resources to connected workspaces.'' ul
          (s\<lparr>projects := map (\<lambda>(j, p). g j p) (enumerate 0 (projects s))\<rparr>)"
      by (simp only: SyncConnected step.simps syncConnected_def pr option.case False if_False Let_def
          unwritten_def stateAfter_def sum.case g_def sourceFiles_def src_def)
    have ids: "map p_id (projects (stateAfter (step a s))) = map p_id (projects s)"
      unfolding st using ids_enumerate [of g, OF gid] by (simp add: addLog_def)
    with ne di show ?thesis
      by (metis map_is_Nil_conv)
  qed
qed

lemma run_keeps_workspaces:
  "projects s \<noteq> [] \<Longrightarrow> distinct (map p_id (projects s)) \<Longrightarrow> freshRun as s \<Longrightarrow>
   projects (run as s) \<noteq> [] \<and> distinct (map p_id (projects (run as s)))"
proof (induction as arbitrary: s)
  case Nil
  then show ?case by simp
next
  case (Cons a as)
  from Cons.prems have fa: "freshIds a s" and fr: "freshRun as (stateAfter (step a s))"
    by simp_all
  from step_keeps_workspaces [OF Cons.prems(1,2) fa]
  have "projects (stateAfter (step a s)) \<noteq> []"
    and "distinct (map p_id (projects (stateAfter (step a s))))"
    by simp_all
  from Cons.IH [OF this fr] show ?case by simp
qed

lemma freshRun_take: "freshRun as s \<Longrightarrow> freshRun (take k as) s"
proof (induction as arbitrary: s k)
  case Nil
  then show ?case by simp
next
  case (Cons a as)
  then show ?case by (cases k) simp_all
qed

lemma sample_two_workspaces:
  "createWorkspace None False u sample_state =
     sample_state\<lparr>projects := [sample_project, makeProject ''Workspace 2'' TwoD u], activeProjectId := u 0\<rparr>"
proof -
  have "digits (Suc (Suc 0)) = ''2''"
    by (simp add: digits.simps)
  then show ?thesis
    by (simp add: createWorkspace_def Let_def sample_state_def makeProject_def)
qed

text \<open>
  C8, as stated, fails on the code. Nothing compares the id generated for a new
  workspace with the ids in the list. With a second workspace that got the id of the
  first, the delete button finds no workspace with another id, writes the empty list,
  and throws: the list of workspaces is empty afterwards.
\<close>

theorem workspace_list_counterexample:
  "projects sample_state = [sample_project] \<and>
   map p_id (projects (createWorkspace None False repeating_uid sample_state)) = [''p1'', ''p1''] \<and>
   deleteWorkspace (createWorkspace None False repeating_uid sample_state) =
     Inl (TypeError, (createWorkspace None False repeating_uid sample_state)\<lparr>projects := []\<rparr>) \<and>
   projects (run [CreateWorkspace None False repeating_uid, DeleteWorkspace] sample_state) = []"
proof -
  have u0: "repeating_uid 0 = ''p1''"
    by (simp add: repeating_uid_def)
  have i: "p_id sample_project = ''p1''"
    by (simp add: sample_project_def)
  have p: "projects sample_state = [sample_project]"
    by (simp add: sample_state_def)
  have ids: "map p_id (projects (createWorkspace None False repeating_uid sample_state)) = [''p1'', ''p1'']"
    by (simp add: sample_two_workspaces makeProject_def u0 i)
  have d: "deleteWorkspace (createWorkspace None False repeating_uid sample_state) =
     Inl (TypeError, (createWorkspace None False repeating_uid sample_state)\<lparr>projects := []\<rparr>)"
    by (simp add: sample_two_workspaces deleteWorkspace_def project_def makeProject_def u0 i)
  have "projects (run [CreateWorkspace None False repeating_uid, DeleteWorkspace] sample_state) = []"
    by (simp add: d stateAfter_def)
  with p ids d show ?thesis
    by (intro conjI)
qed

text \<open>
  C8, amended. Let the list of workspaces be non-empty with pairwise different ids, and
  let a sequence of operations on the list bring no id in a second time: the id
  generated for a new workspace is not in the list, a stored list that is loaded has
  pairwise different ids, and a patch leaves the ids alone. Then after every step of the
  sequence the list is non-empty, and its ids are pairwise different. The delete button
  returns without an error and leaves a non-empty list, and it does nothing when the
  list has one workspace; the startup effect puts one fresh default workspace in place
  of an empty stored list.
\<close>

theorem workspace_list_nonempty:
  assumes "projects s \<noteq> []" and "distinct (map p_id (projects s))" and "freshRun as s"
  shows "(\<forall>k\<le>length as. projects (run (take k as) s) \<noteq> [] \<and>
                        distinct (map p_id (projects (run (take k as) s)))) \<and>
         (length (projects s) = 1 \<longrightarrow> deleteWorkspace s = Inr s) \<and>
         (\<exists>s'. deleteWorkspace s = Inr s' \<and> projects s' \<noteq> []) \<and>
         (\<forall>parsed u. ps_projects parsed = [] \<longrightarrow>
            (\<exists>s'. startup (Some parsed) u s = Inr s' \<and>
               projects s' = [makeProject ''Main Workspace'' TwoD u]))"
proof (intro conjI allI impI)
  fix k
  from assms(3) have "freshRun (take k as) s"
    by (rule freshRun_take)
  from run_keeps_workspaces [OF assms(1,2) this]
  show "projects (run (take k as) s) \<noteq> []"
    and "distinct (map p_id (projects (run (take k as) s)))"
    by simp_all
next
  show "deleteWorkspace s = Inr s" if "length (projects s) = 1"
    using that by (simp add: deleteWorkspace_def)
  show "\<exists>s'. deleteWorkspace s = Inr s' \<and> projects s' \<noteq> []"
    using assms(1,2) by (rule deleteWorkspace_succeeds)
  show "\<exists>s'. startup (Some parsed) u s = Inr s' \<and> projects s' = [makeProject ''Main Workspace'' TwoD u]"
    if "ps_projects parsed = []" for parsed u
    using that by (simp add: startup_def)
qed

theorem workspace_list_nonempty_witness:
  "projects sample_state \<noteq> [] \<and> distinct (map p_id (projects sample_state)) \<and>
   freshRun [CreateWorkspace None False sample_uid, DeleteWorkspace, DeleteWorkspace] sample_state \<and>
   map p_id (projects (run [CreateWorkspace None False sample_uid] sample_state)) = [''p1'', ''u0''] \<and>
   projects (run [CreateWorkspace None False sample_uid, DeleteWorkspace] sample_state) = [sample_project] \<and>
   projects (run [CreateWorkspace None False sample_uid, DeleteWorkspace, DeleteWorkspace] sample_state)
     = [sample_project] \<and>
   projects (run [CreateWorkspace None False sample_uid, DeleteWorkspace, DeleteWorkspace] sample_state) \<noteq> [] \<and>
   length (projects sample_state) = 1 \<and>
   deleteWorkspace sample_state = Inr sample_state \<and>
   ps_projects \<lparr>ps_auth = Guest, ps_projects = [], ps_activeProjectId = ''''\<rparr> = [] \<and>
   (\<exists>s'. startup (Some \<lparr>ps_auth = Guest, ps_projects = [], ps_activeProjectId = ''''\<rparr>) sample_uid sample_state = Inr s' \<and>
      projects s' = [makeProject ''Main Workspace'' TwoD sample_uid])"
proof -
  have n: "projects sample_state \<noteq> []" and d: "distinct (map p_id (projects sample_state))"
    and l: "length (projects sample_state) = 1"
    by (simp_all add: sample_state_def)
  have e: "ps_projects \<lparr>ps_auth = Guest, ps_projects = [], ps_activeProjectId = ''''\<rparr> = []"
    by simp
  have u0: "sample_uid 0 = ''u0''"
    by (simp add: sample_uid_def digits.simps)
  have i: "p_id sample_project = ''p1''"
    by (simp add: sample_project_def)
  have r1: "run [CreateWorkspace None False sample_uid] sample_state =
      sample_state\<lparr>projects := [sample_project, makeProject ''Workspace 2'' TwoD sample_uid],
                   activeProjectId := ''u0''\<rparr>"
    by (simp add: sample_two_workspaces stateAfter_def u0)
  have ids: "map p_id (projects (run [CreateWorkspace None False sample_uid] sample_state)) = [''p1'', ''u0'']"
    by (simp only: r1) (simp add: makeProject_def u0 i)
  have dw: "deleteWorkspace (sample_state\<lparr>projects := [sample_project, makeProject ''Workspace 2'' TwoD sample_uid],
                   activeProjectId := ''u0''\<rparr>) =
      Inr (sample_state\<lparr>projects := [sample_project], activeProjectId := ''p1''\<rparr>)"
    by (simp add: deleteWorkspace_def project_def makeProject_def u0 i)
  have s1: "sample_state\<lparr>projects := [sample_project], activeProjectId := ''p1''\<rparr> = sample_state"
    by (simp add: sample_state_def)
  have r2': "run [CreateWorkspace None False sample_uid, DeleteWorkspace] sample_state = sample_state"
    using r1 by (simp add: dw s1 stateAfter_def)
  then have r2: "projects (run [CreateWorkspace None False sample_uid, DeleteWorkspace] sample_state) = [sample_project]"
    by (simp add: sample_state_def)
  have fr: "freshRun [CreateWorkspace None False sample_uid, DeleteWorkspace, DeleteWorkspace] sample_state"
    by (simp add: u0) (simp add: sample_state_def i)
  note th = workspace_list_nonempty [OF n d fr]
  from th [THEN conjunct2, THEN conjunct1] l have r: "deleteWorkspace sample_state = Inr sample_state"
    by (rule mp)
  have r3': "run [CreateWorkspace None False sample_uid, DeleteWorkspace, DeleteWorkspace] sample_state = sample_state"
    using r1 by (simp add: dw s1 r stateAfter_def)
  then have r3: "projects (run [CreateWorkspace None False sample_uid, DeleteWorkspace, DeleteWorkspace] sample_state)
     = [sample_project]"
    by (simp add: sample_state_def)
  from th [THEN conjunct1, rule_format, of 3]
  have r4: "projects (run [CreateWorkspace None False sample_uid, DeleteWorkspace, DeleteWorkspace] sample_state) \<noteq> []"
    by simp
  from th [THEN conjunct2, THEN conjunct2, THEN conjunct2] e
  have su: "\<exists>s'. startup (Some \<lparr>ps_auth = Guest, ps_projects = [], ps_activeProjectId = ''''\<rparr>) sample_uid sample_state = Inr s' \<and>
      projects s' = [makeProject ''Main Workspace'' TwoD sample_uid]"
    by blast
  show ?thesis
    by (intro conjI) (rule n d fr ids r2 r3 r4 l r e su)+
qed
section \<open>Facts about the explorer listing\<close>

































end
